theory Spec2Isabelle
  imports Complex_Main
begin

section \<open>Data model of \<open>lb_boundaries.cpp\<close>\<close>

text \<open>
  Doubles and floats are modelled as \<open>real\<close> (no rounding, no NaN), C++ \<open>int\<close> and
  \<open>unsigned\<close> as \<open>int\<close> without wrap-around. A \<open>std::shared_ptr<LBBoundary>\<close> is an
  address (\<open>ptr\<close>) into a store of boundary objects, so that the same object can sit in
  the registry more than once and be compared by identity.
\<close>

type_synonym Vector3d = "real \<times> real \<times> real"
type_synonym Vector3i = "int \<times> int \<times> int"
type_synonym ptr = nat

datatype ActiveLB = NONE | CPU | GPU

datatype error = OutOfRange | RuntimeError string

text \<open>
  \<open>LBBoundary\<close> (declared in \<open>lbboundaries/LBBoundary.hpp\<close>): the members the file uses.
  \<open>calc_dist\<close> is the distance query of the boundary's shape; it delivers the signed
  distance and the direction vector.
\<close>

record LBBoundary =
  calc_dist :: "Vector3d \<Rightarrow> real \<times> Vector3d"
  velocity :: Vector3d
  charge_density :: real
  net_charge :: real

definition set_net_charge :: "real \<Rightarrow> LBBoundary \<Rightarrow> LBBoundary" where
  "set_net_charge q b = b\<lparr>net_charge := q\<rparr>"

text \<open>The initial value \<open>1e99\<close> of \<open>dist\<close> at every node.\<close>

definition dist_init :: real where
  "dist_init = 10 ^ 99"

section \<open>The scan over the boundaries at one node\<close>

text \<open>
  CPU branch, lines 247-256: \<open>n\<close> counts the boundaries, \<open>cur_dist\<close> (the source's
  \<open>dist\<close>, a constant of the library here) and \<open>the_boundary\<close> are the running best.
\<close>

fun scan_cpu :: "(ptr \<Rightarrow> LBBoundary) \<Rightarrow> ptr list \<Rightarrow> Vector3d \<Rightarrow> int \<Rightarrow> real \<times> int \<Rightarrow> real \<times> int" where
  "scan_cpu store [] pos n (cur_dist, the_boundary) = (cur_dist, the_boundary)"
| "scan_cpu store (it # rest) pos n (cur_dist, the_boundary) =
     (let dist_tmp = fst (calc_dist (store it) pos)
      in if dist_tmp < cur_dist \<or> n = 0
         then scan_cpu store rest pos (n + 1) (dist_tmp, n)
         else scan_cpu store rest pos (n + 1) (cur_dist, the_boundary))"

text \<open>
  GPU branch. The local variables of the sweep (lines 76-87) and the state it writes:
  the boundary objects (their net charge), \<open>lbpar_gpu.number_of_boundnodes\<close> and
  \<open>ek_parameters.number_of_boundary_nodes\<close>. \<open>cur_dist\<close> is the \<open>dist\<close> of the node.
\<close>

record gpu_locals =
  cur_dist :: real
  boundary_number :: int
  node_charged :: bool
  node_wallcharge :: real
  objects :: "ptr \<Rightarrow> LBBoundary"
  number_of_boundnodes :: int
  host_boundary_node_list :: "int list"
  host_boundary_index_list :: "int list"
  host_wallcharge_species_density :: "real list"
  lbpar_number_of_boundnodes :: int
  ekpar_number_of_boundary_nodes :: int

text \<open>Lines 138-157, the body of the scan over the boundaries at one node.\<close>

definition scan_gpu_body :: "bool \<Rightarrow> real \<Rightarrow> Vector3d \<Rightarrow> ptr \<Rightarrow> int \<Rightarrow> gpu_locals \<Rightarrow> gpu_locals" where
  "scan_gpu_body ek_init cell pos lbb n s =
     (let dist_tmp = fst (calc_dist (objects s lbb) pos);
          s1 = (if cur_dist s > dist_tmp \<or> n = 0
                then s\<lparr>cur_dist := dist_tmp, boundary_number := n\<rparr> else s)
      in if ek_init
         then if dist_tmp \<le> 0 \<and> charge_density (objects s1 lbb) \<noteq> 0
              then s1\<lparr>node_charged := True,
                      node_wallcharge := node_wallcharge s1 +
                        charge_density (objects s1 lbb) * cell * cell * cell,
                      objects := (objects s1)(lbb := set_net_charge
                        (net_charge (objects s1 lbb) +
                         charge_density (objects s1 lbb) * cell * cell * cell)
                        (objects s1 lbb))\<rparr>
              else s1
         else s1)"

fun scan_gpu :: "bool \<Rightarrow> real \<Rightarrow> Vector3d \<Rightarrow> ptr list \<Rightarrow> int \<Rightarrow> gpu_locals \<Rightarrow> gpu_locals" where
  "scan_gpu ek_init cell pos [] n s = s"
| "scan_gpu ek_init cell pos (lbb # rest) n s =
     scan_gpu ek_init cell pos rest (n + 1) (scan_gpu_body ek_init cell pos lbb n s)"

text \<open>The distances the boundaries of the registry report at a position.\<close>

definition distances :: "(ptr \<Rightarrow> LBBoundary) \<Rightarrow> ptr list \<Rightarrow> Vector3d \<Rightarrow> real list" where
  "distances store registry pos = map (\<lambda>p. fst (calc_dist (store p) pos)) registry"

text \<open>
  The tie-break policy in the spec's words: \<open>k\<close> is a boundary of smallest distance \<open>d\<close>,
  and every boundary before \<open>k\<close> is strictly farther.
\<close>

definition nearest_first :: "real list \<Rightarrow> real \<Rightarrow> int \<Rightarrow> bool" where
  "nearest_first ds d k \<longleftrightarrow>
     0 \<le> k \<and> nat k < length ds \<and> d = ds ! nat k \<and>
     (\<forall>j < length ds. d \<le> ds ! j) \<and> (\<forall>j < nat k. d < ds ! j)"

section \<open>Lattice, fluid nodes and parameters\<close>

text \<open>
  The members of \<open>Lattice\<close>, \<open>LB_FluidNode\<close>, \<open>LB_parameters_gpu\<close> and \<open>EK_parameters\<close>
  that the file reads or writes (their declarations are in headers outside the file).
\<close>

record Lattice =
  grid :: Vector3i
  halo_grid :: Vector3i
  halo_grid_volume :: int
  agrid :: real

record LB_FluidNode =
  boundary :: int
  slip_velocity :: Vector3d

record LB_parameters_gpu =
  gpu_agrid :: real
  gpu_dim_x :: int
  gpu_dim_y :: int
  gpu_dim_z :: int
  gpu_number_of_boundnodes :: int

record EK_parameters =
  ek_agrid :: real
  ek_dim_x :: int
  ek_dim_y :: int
  ek_number_of_nodes :: int
  ek_number_of_species :: int
  ek_valency :: "nat \<Rightarrow> real"
  ek_number_of_boundary_nodes :: int

text \<open>The arguments of one call of \<open>lb_init_boundaries_GPU\<close> (line 203).\<close>

record boundaries_GPU =
  host_n_lb_boundaries :: int
  host_number_of_boundnodes :: int
  host_boundary_nodes :: "int list"
  host_boundary_indices :: "int list"
  host_boundary_velocity :: "real list"

text \<open>
  The global state the file works on. \<open>heap\<close> holds the boundary objects the shared
  pointers of \<open>lbboundaries\<close> point to. \<open>node_pos\<close> is \<open>calc_node_pos(comm_cart)\<close>,
  \<open>lb_tau\<close> and \<open>lb_agrid\<close> are \<open>lb_lbfluid_get_tau()\<close> and \<open>lb_lbfluid_get_agrid()\<close>.
  \<open>ek_gather\<close> stands for the external \<open>ek_gather_wallcharge_species_density\<close>: given the
  species, the value it leaves in each slot of the host buffer (it writes through the raw
  pointer, so the buffer keeps its size). \<open>runtime_errors\<close> is the channel of
  \<open>runtimeErrorMsg()\<close>; \<open>lb_boundaries_gpu\<close> and \<open>ek_wallcharge\<close> record what the last calls
  of \<open>lb_init_boundaries_GPU\<close> and \<open>ek_init_species_density_wallcharge\<close> were given.
\<close>

record system =
  lattice_switch :: ActiveLB
  this_node :: int
  lbboundaries :: "ptr list"
  heap :: "ptr \<Rightarrow> LBBoundary"
  lbfields :: "LB_FluidNode list"
  lblattice :: Lattice
  node_pos :: Vector3i
  lb_tau :: real
  lb_agrid :: real
  lbpar_gpu :: LB_parameters_gpu
  ek_parameters :: EK_parameters
  ek_initialized :: bool
  ek_gather :: "int \<Rightarrow> nat \<Rightarrow> real"
  runtime_errors :: "string list"
  lb_boundaries_gpu :: "boundaries_GPU option"
  ek_wallcharge :: "(real list \<times> int) option"

text \<open>A loop over a range whose body can fail: the first failure ends it.\<close>

fun for_each :: "'a list \<Rightarrow> ('a \<Rightarrow> 's \<Rightarrow> error + 's) \<Rightarrow> 's \<Rightarrow> error + 's" where
  "for_each [] body s = Inr s"
| "for_each (x # xs) body s =
     (case body x s of Inl e \<Rightarrow> Inl e | Inr s' \<Rightarrow> for_each xs body s')"

text \<open>
  Modelled from the spec: \<open>Utils::get_linear_index\<close> (\<open>utils/index.hpp\<close>) is not among the
  sources. The linear node index runs over x first, then y, then z, as the accelerator
  branch writes it inline (line 164).
\<close>

definition get_linear_index :: "int \<Rightarrow> int \<Rightarrow> int \<Rightarrow> Vector3i \<Rightarrow> int" where
  "get_linear_index a b c adim = a + fst adim * (b + fst (snd adim) * c)"

section \<open>The CPU branch of \<open>lb_init_boundaries\<close>\<close>

text \<open>Lines 228-230: \<open>lbfields.at(n)\<close> throws when \<open>n\<close> is not an index of the vector.\<close>

definition reset_boundary :: "int \<Rightarrow> LB_FluidNode list \<Rightarrow> error + LB_FluidNode list" where
  "reset_boundary n flds =
     (if 0 \<le> n \<and> nat n < length flds
      then Inr (flds[nat n := (flds ! nat n)\<lparr>boundary := 0\<rparr>])
      else Inl OutOfRange)"

definition scale :: "Vector3d \<Rightarrow> real \<Rightarrow> Vector3d" where
  "scale v c = (fst v * c, fst (snd v) * c, snd (snd v) * c)"

text \<open>Lines 238-241.\<close>

definition cpu_pos :: "system \<Rightarrow> int \<Rightarrow> int \<Rightarrow> int \<Rightarrow> Vector3d" where
  "cpu_pos sys x y z =
     (let lat = lblattice sys;
          offset0 = fst (node_pos sys) * fst (grid lat);
          offset1 = fst (snd (node_pos sys)) * fst (snd (grid lat));
          offset2 = snd (snd (node_pos sys)) * snd (snd (grid lat))
      in ((of_int offset0 + (of_int x - 0.5)) * agrid lat,
          (of_int offset1 + (of_int y - 0.5)) * agrid lat,
          (of_int offset2 + (of_int z - 0.5)) * agrid lat))"

text \<open>
  Lines 238-269, the body of the innermost loop. \<open>the_boundary\<close> is declared outside the
  loops (line 219) and travels from node to node. An access \<open>lbfields[index]\<close> or
  \<open>lbboundaries[the_boundary]\<close> outside the vector is an error of the model.
\<close>

definition cpu_node :: "system \<Rightarrow> int \<Rightarrow> int \<Rightarrow> int \<Rightarrow> int \<times> LB_FluidNode list \<Rightarrow>
    error + int \<times> LB_FluidNode list" where
  "cpu_node sys z y x st =
     (let flds = snd st;
          pos = cpu_pos sys x y z;
          best = scan_cpu (heap sys) (lbboundaries sys) pos 0 (dist_init, fst st);
          the_boundary = snd best;
          index = get_linear_index x y z (halo_grid (lblattice sys))
      in if fst best \<le> 0 \<and> the_boundary \<ge> 0 \<and> lbboundaries sys \<noteq> []
         then if 0 \<le> index \<and> nat index < length flds \<and>
                 nat the_boundary < length (lbboundaries sys)
              then Inr (the_boundary, flds[nat index := (flds ! nat index)
                     \<lparr>boundary := the_boundary + 1,
                      slip_velocity :=
                        scale (velocity (heap sys (lbboundaries sys ! nat the_boundary)))
                          (lb_tau sys / lb_agrid sys)\<rparr>])
              else Inl OutOfRange
         else if 0 \<le> index \<and> nat index < length flds
              then Inr (the_boundary, flds[nat index := (flds ! nat index)\<lparr>boundary := 0\<rparr>])
              else Inl OutOfRange)"

definition lb_init_boundaries_cpu :: "system \<Rightarrow> error + system" where
  "lb_init_boundaries_cpu sys =
     (let lat = lblattice sys
      in case for_each [0 .. halo_grid_volume lat - 1] reset_boundary (lbfields sys) of
           Inl e \<Rightarrow> Inl e
         | Inr flds \<Rightarrow>
             if halo_grid_volume lat = 0 then Inr (sys\<lparr>lbfields := flds\<rparr>)
             else
               (case for_each [0 .. snd (snd (grid lat)) + 2 - 1] (\<lambda>z.
                       for_each [0 .. fst (snd (grid lat)) + 2 - 1] (\<lambda>y.
                         for_each [0 .. fst (grid lat) + 2 - 1] (\<lambda>x. cpu_node sys z y x)))
                     (- 1, flds) of
                  Inl e \<Rightarrow> Inl e
                | Inr st \<Rightarrow> Inr (sys\<lparr>lbfields := snd st\<rparr>)))"

section \<open>The GPU branch of \<open>lb_init_boundaries\<close>\<close>

definition sizeof_int :: int where
  "sizeof_int = 4"

text \<open>\<open>std::vector::resize\<close>: cut, or filled up with zeros.\<close>

definition resize :: "int \<Rightarrow> int list \<Rightarrow> int list" where
  "resize n xs = take (nat n) xs @ replicate (nat n - length xs) 0"

text \<open>Lines 120-122.\<close>

definition gpu_pos :: "system \<Rightarrow> int \<Rightarrow> int \<Rightarrow> int \<Rightarrow> Vector3d" where
  "gpu_pos sys x y z =
     (gpu_agrid (lbpar_gpu sys) * (1 * of_int x + 0.5),
      gpu_agrid (lbpar_gpu sys) * (1 * of_int y + 0.5),
      gpu_agrid (lbpar_gpu sys) * (1 * of_int z + 0.5))"

text \<open>
  Lines 120-184, the body of the innermost loop. The write into the host lists is inside
  them after the \<open>resize\<close>; the write into the wall-charge buffer is checked.
\<close>

definition gpu_node :: "system \<Rightarrow> int \<Rightarrow> int \<Rightarrow> int \<Rightarrow> int \<Rightarrow> gpu_locals \<Rightarrow> error + gpu_locals" where
  "gpu_node sys wallcharge_species z y x L =
     (let g = lbpar_gpu sys;
          ek = ek_parameters sys;
          pos = gpu_pos sys x y z;
          L1 = L\<lparr>cur_dist := dist_init\<rparr>;
          L2 = (if ek_initialized sys
                then L1\<lparr>node_charged := False, node_wallcharge := 0\<rparr> else L1);
          L3 = scan_gpu (ek_initialized sys) (ek_agrid ek) pos (lbboundaries sys) 0 L2;
          L4 = (if cur_dist L3 \<le> 0 \<and> boundary_number L3 \<ge> 0 \<and> lbboundaries sys \<noteq> []
                then let size_of_index = (number_of_boundnodes L3 + 1) * sizeof_int
                     in L3\<lparr>host_boundary_node_list :=
                              (resize size_of_index (host_boundary_node_list L3))
                                [nat (number_of_boundnodes L3) :=
                                   x + gpu_dim_x g * y + gpu_dim_x g * gpu_dim_y g * z],
                           host_boundary_index_list :=
                              (resize size_of_index (host_boundary_index_list L3))
                                [nat (number_of_boundnodes L3) := boundary_number L3 + 1],
                           number_of_boundnodes := number_of_boundnodes L3 + 1\<rparr>
                else L3);
          L5 = L4\<lparr>lbpar_number_of_boundnodes := number_of_boundnodes L4\<rparr>
      in if ek_initialized sys
         then let L6 = L5\<lparr>ekpar_number_of_boundary_nodes := number_of_boundnodes L5\<rparr>;
                  i = ek_dim_y ek * ek_dim_x ek * z + ek_dim_x ek * y + x
              in if wallcharge_species \<noteq> - 1 \<and> node_charged L6
                 then if 0 \<le> i \<and> nat i < length (host_wallcharge_species_density L6)
                      then Inr (L6\<lparr>host_wallcharge_species_density :=
                                  (host_wallcharge_species_density L6)
                                    [nat i := node_wallcharge L6 /
                                       ek_valency ek (nat wallcharge_species)]\<rparr>)
                      else Inl OutOfRange
                 else Inr L6
         else Inr L5)"

text \<open>Lines 102-106: the first species with a valency, or \<open>-1\<close>.\<close>

definition find_wallcharge_species :: "EK_parameters \<Rightarrow> int" where
  "find_wallcharge_species ek =
     (case find (\<lambda>n. ek_valency ek (nat n) \<noteq> 0) [0 .. ek_number_of_species ek - 1] of
        None \<Rightarrow> - 1 | Some n \<Rightarrow> n)"

text \<open>Lines 89-91.\<close>

fun reset_net_charges :: "ptr list \<Rightarrow> (ptr \<Rightarrow> LBBoundary) \<Rightarrow> (ptr \<Rightarrow> LBBoundary)" where
  "reset_net_charges [] h = h"
| "reset_net_charges (lbboundarie # rest) h =
     reset_net_charges rest (h(lbboundarie := set_net_charge 0 (h lbboundarie)))"

text \<open>Lines 190-201: the velocity table, the boundaries' velocities and the zero triple.\<close>

fun fill_boundary_velocity :: "(ptr \<Rightarrow> LBBoundary) \<Rightarrow> ptr list \<Rightarrow> nat \<Rightarrow> real list \<Rightarrow> real list" where
  "fill_boundary_velocity h [] n bv = bv"
| "fill_boundary_velocity h (lbb # rest) n bv =
     fill_boundary_velocity h rest (n + 1)
       (bv[3 * n + 0 := fst (velocity (h lbb)),
           3 * n + 1 := fst (snd (velocity (h lbb))),
           3 * n + 2 := snd (snd (velocity (h lbb)))])"

definition boundary_velocity :: "(ptr \<Rightarrow> LBBoundary) \<Rightarrow> ptr list \<Rightarrow> real list" where
  "boundary_velocity h registry =
     (fill_boundary_velocity h registry 0 (replicate (3 * (length registry + 1)) 0))
       [3 * length registry + 0 := 0, 3 * length registry + 1 := 0,
        3 * length registry + 2 := 0]"

text \<open>The text of the runtime error (line 113).\<close>

definition no_charged_species_message :: string where
  "no_charged_species_message = ''no charged species available to create wall charge\<newline>''"

text \<open>
  Lines 76-213, run by the process with \<open>this_node = 0\<close>, with \<open>CUDA\<close>, \<open>LB_BOUNDARIES_GPU\<close>
  and \<open>EK_BOUNDARIES\<close> defined.
\<close>

definition lb_init_boundaries_gpu :: "system \<Rightarrow> error + system" where
  "lb_init_boundaries_gpu sys =
     (let ek = ek_parameters sys;
          registry = lbboundaries sys;
          h0 = reset_net_charges registry (heap sys);
          charged_boundaries = (ek_initialized sys \<and> list_ex (\<lambda>b. charge_density (h0 b) \<noteq> 0) registry);
          wallcharge_species = (if ek_initialized sys then find_wallcharge_species ek else - 1);
          host_wallcharge = (if ek_initialized sys
                             then map (ek_gather sys wallcharge_species) [0 ..< nat (ek_number_of_nodes ek)]
                             else []);
          errors = (if ek_initialized sys \<and> wallcharge_species = - 1 \<and> charged_boundaries
                    then runtime_errors sys @ [no_charged_species_message]
                    else runtime_errors sys);
          L0 = \<lparr>cur_dist = 0, boundary_number = - 1, node_charged = False, node_wallcharge = 0,
                objects = h0, number_of_boundnodes = 0, host_boundary_node_list = [],
                host_boundary_index_list = [], host_wallcharge_species_density = host_wallcharge,
                lbpar_number_of_boundnodes = gpu_number_of_boundnodes (lbpar_gpu sys),
                ekpar_number_of_boundary_nodes = ek_number_of_boundary_nodes ek\<rparr>
      in case for_each [0 .. gpu_dim_z (lbpar_gpu sys) - 1] (\<lambda>z.
                for_each [0 .. gpu_dim_y (lbpar_gpu sys) - 1] (\<lambda>y.
                  for_each [0 .. gpu_dim_x (lbpar_gpu sys) - 1] (\<lambda>x.
                    gpu_node sys wallcharge_species z y x))) L0 of
           Inl e \<Rightarrow> Inl e
         | Inr L \<Rightarrow>
             Inr (sys\<lparr>heap := objects L,
                      runtime_errors := errors,
                      lbpar_gpu := (lbpar_gpu sys)\<lparr>gpu_number_of_boundnodes := lbpar_number_of_boundnodes L\<rparr>,
                      ek_parameters := ek\<lparr>ek_number_of_boundary_nodes := ekpar_number_of_boundary_nodes L\<rparr>,
                      lb_boundaries_gpu := Some
                        \<lparr>host_n_lb_boundaries = int (length registry),
                         host_number_of_boundnodes = number_of_boundnodes L,
                         host_boundary_nodes = host_boundary_node_list L,
                         host_boundary_indices = host_boundary_index_list L,
                         host_boundary_velocity = boundary_velocity (objects L) registry\<rparr>,
                      ek_wallcharge := (if ek_initialized sys
                                        then Some (host_wallcharge_species_density L, wallcharge_species)
                                        else ek_wallcharge sys)\<rparr>))"

section \<open>\<open>lb_init_boundaries\<close>, \<open>add\<close>, \<open>remove\<close>, \<open>lbboundary_get_force\<close>\<close>

definition lb_init_boundaries :: "system \<Rightarrow> error + system" where
  "lb_init_boundaries sys =
     (if lattice_switch sys = GPU
      then if this_node sys \<noteq> 0 then Inr sys else lb_init_boundaries_gpu sys
      else if lattice_switch sys = CPU then lb_init_boundaries_cpu sys
      else Inr sys)"

text \<open>
  Modelled from the spec: \<open>on_lbboundary_change\<close> (\<open>event.cpp\<close>) is not among the sources.
  By the spec each mutation of the registry triggers the full re-classification.
\<close>

definition on_lbboundary_change :: "system \<Rightarrow> error + system" where
  "on_lbboundary_change sys = lb_init_boundaries sys"

definition add :: "ptr \<Rightarrow> system \<Rightarrow> error + system" where
  "add b sys = on_lbboundary_change (sys\<lparr>lbboundaries := lbboundaries sys @ [b]\<rparr>)"

text \<open>\<open>std::remove\<close> followed by \<open>erase\<close> up to the end (line 63).\<close>

definition remove :: "ptr \<Rightarrow> system \<Rightarrow> error + system" where
  "remove b sys =
     on_lbboundary_change (sys\<lparr>lbboundaries := filter (\<lambda>lbb. lbb \<noteq> b) (lbboundaries sys)\<rparr>)"

text \<open>\<open>std::find_if\<close> with \<open>std::distance\<close>: the position of the first match.\<close>

fun find_index :: "ptr \<Rightarrow> ptr list \<Rightarrow> nat option" where
  "find_index lbb [] = None"
| "find_index lbb (i # rest) =
     (if i = lbb then Some 0
      else case find_index lbb rest of None \<Rightarrow> None | Some k \<Rightarrow> Some (k + 1))"

text \<open>
  Lines 277-303. \<open>gpu_forces\<close> and \<open>cpu_forces\<close> are what \<open>lb_gpu_get_boundary_forces\<close> and
  \<open>mpi_gather_stats(8, ...)\<close> leave in each slot of the array \<open>forces\<close>; the array has
  \<open>3 * lbboundaries.size()\<close> slots, zero before the call.
\<close>

definition unregistered_boundary :: error where
  "unregistered_boundary = RuntimeError
     ''You probably tried to get the force of an lbboundary that was not added to system.lbboundaries.''"

definition lbboundary_get_force :: "(nat \<Rightarrow> real) \<Rightarrow> (nat \<Rightarrow> real) \<Rightarrow> system \<Rightarrow> ptr \<Rightarrow> error + Vector3d" where
  "lbboundary_get_force gpu_forces cpu_forces sys lbb =
     (case find_index lbb (lbboundaries sys) of
        None \<Rightarrow> Inl unregistered_boundary
      | Some container_index \<Rightarrow>
          let forces0 = replicate (3 * length (lbboundaries sys)) (0::real);
              forces = (if lattice_switch sys = GPU then map gpu_forces [0 ..< length forces0]
                        else if lattice_switch sys = CPU then map cpu_forces [0 ..< length forces0]
                        else forces0)
          in Inr (forces ! (3 * container_index + 0),
                  forces ! (3 * container_index + 1),
                  forces ! (3 * container_index + 2)))"

section \<open>Well-formed systems\<close>

text \<open>
  What the passes rely on and the rest of the program provides. \<open>wf_lattice\<close>: the lattice
  has no volume, or its halo grid is the grid with one layer on every face, its halo
  volume is the product of the halo extents, and \<open>lbfields\<close> has one node per halo cell.
  \<open>wf_ek\<close>: an initialised electrokinetic solver works on the grid of the GPU fluid (its
  dimensions are unsigned), with one buffer entry per node. \<open>wf_system\<close> asks for the one
  that belongs to the active backend.
\<close>

definition wf_lattice :: "system \<Rightarrow> bool" where
  "wf_lattice sys \<longleftrightarrow>
     (let lat = lblattice sys; gx = fst (grid lat); gy = fst (snd (grid lat));
          gz = snd (snd (grid lat))
      in halo_grid_volume lat = 0 \<or>
         (0 \<le> gx \<and> 0 \<le> gy \<and> 0 \<le> gz \<and>
          halo_grid lat = (gx + 2, gy + 2, gz + 2) \<and>
          halo_grid_volume lat = (gx + 2) * (gy + 2) * (gz + 2) \<and>
          int (length (lbfields sys)) = halo_grid_volume lat))"

definition wf_ek :: "system \<Rightarrow> bool" where
  "wf_ek sys \<longleftrightarrow>
     (ek_initialized sys \<longrightarrow>
        0 \<le> gpu_dim_x (lbpar_gpu sys) \<and> 0 \<le> gpu_dim_y (lbpar_gpu sys) \<and>
        0 \<le> gpu_dim_z (lbpar_gpu sys) \<and>
        ek_dim_x (ek_parameters sys) = gpu_dim_x (lbpar_gpu sys) \<and>
        ek_dim_y (ek_parameters sys) = gpu_dim_y (lbpar_gpu sys) \<and>
        ek_number_of_nodes (ek_parameters sys) =
          gpu_dim_x (lbpar_gpu sys) * gpu_dim_y (lbpar_gpu sys) * gpu_dim_z (lbpar_gpu sys))"

definition wf_system :: "system \<Rightarrow> bool" where
  "wf_system sys \<longleftrightarrow>
     (lattice_switch sys = CPU \<longrightarrow> wf_lattice sys) \<and> (lattice_switch sys = GPU \<longrightarrow> wf_ek sys)"

section \<open>The CPU pass in closed form\<close>

text \<open>
  \<open>apply_writes\<close> is a sweep reduced to its writes: for every element of \<open>ps\<close> in turn,
  the entry at its index is replaced by a function of the old entry.
\<close>

definition apply_writes :: "('p \<Rightarrow> nat) \<Rightarrow> ('p \<Rightarrow> 'v \<Rightarrow> 'v) \<Rightarrow> 'p list \<Rightarrow> 'v list \<Rightarrow> 'v list" where
  "apply_writes idx upd ps vs = fold (\<lambda>p vs. vs[idx p := upd p (vs ! idx p)]) ps vs"

text \<open>
  The nodes of the halo grid, \<open>(z, y, x)\<close> in the order of the sweep, the index of a node in
  \<open>lbfields\<close>, the result of the scan at a node (the smallest distance and the index of the
  boundary reporting it, started with \<open>the_boundary = -1\<close>), the write of lines 258-269 at
  a node, and the node fields after the pass: flags reset, then every node written.
\<close>

definition halo_nodes :: "Lattice \<Rightarrow> (int \<times> int \<times> int) list" where
  "halo_nodes lat =
     List.product [0 .. snd (snd (grid lat)) + 2 - 1]
       (List.product [0 .. fst (snd (grid lat)) + 2 - 1] [0 .. fst (grid lat) + 2 - 1])"

definition cpu_index :: "Lattice \<Rightarrow> int \<times> int \<times> int \<Rightarrow> nat" where
  "cpu_index lat = (\<lambda>(z, y, x). nat (get_linear_index x y z (halo_grid lat)))"

definition cpu_best :: "system \<Rightarrow> int \<times> int \<times> int \<Rightarrow> real \<times> int" where
  "cpu_best sys = (\<lambda>(z, y, x).
     scan_cpu (heap sys) (lbboundaries sys) (cpu_pos sys x y z) 0 (dist_init, - 1))"

definition cpu_classify :: "system \<Rightarrow> int \<times> int \<times> int \<Rightarrow> LB_FluidNode \<Rightarrow> LB_FluidNode" where
  "cpu_classify sys p node =
     (if fst (cpu_best sys p) \<le> 0 \<and> lbboundaries sys \<noteq> []
      then node\<lparr>boundary := snd (cpu_best sys p) + 1,
                slip_velocity :=
                  scale (velocity (heap sys (lbboundaries sys ! nat (snd (cpu_best sys p)))))
                    (lb_tau sys / lb_agrid sys)\<rparr>
      else node\<lparr>boundary := 0\<rparr>)"

definition cpu_result :: "system \<Rightarrow> LB_FluidNode list" where
  "cpu_result sys =
     apply_writes (cpu_index (lblattice sys)) (cpu_classify sys) (halo_nodes (lblattice sys))
       (map (\<lambda>node. node\<lparr>boundary := 0\<rparr>) (lbfields sys))"

section \<open>The GPU pass in closed form\<close>

text \<open>
  The nodes of the global grid in the order of the sweep, their positions, the result of
  the scan at a node (the GPU scan keeps the same running best as the CPU scan, see
  \<open>scan_gpu_best\<close> below), the nodes that enter the lists for the device, and the linear
  indices the code writes inline (lines 164 and 178-180).
\<close>

definition gpu_nodes :: "LB_parameters_gpu \<Rightarrow> (int \<times> int \<times> int) list" where
  "gpu_nodes g =
     List.product [0 .. gpu_dim_z g - 1] (List.product [0 .. gpu_dim_y g - 1] [0 .. gpu_dim_x g - 1])"

definition gpu_pos_of :: "system \<Rightarrow> int \<times> int \<times> int \<Rightarrow> Vector3d" where
  "gpu_pos_of sys = (\<lambda>(z, y, x). gpu_pos sys x y z)"

definition gpu_best :: "system \<Rightarrow> int \<times> int \<times> int \<Rightarrow> real \<times> int" where
  "gpu_best sys = (\<lambda>(z, y, x).
     scan_cpu (heap sys) (lbboundaries sys) (gpu_pos sys x y z) 0 (dist_init, - 1))"

definition gpu_owned :: "system \<Rightarrow> int \<times> int \<times> int \<Rightarrow> bool" where
  "gpu_owned sys p \<longleftrightarrow> fst (gpu_best sys p) \<le> 0 \<and> lbboundaries sys \<noteq> []"

definition gpu_index :: "LB_parameters_gpu \<Rightarrow> int \<times> int \<times> int \<Rightarrow> int" where
  "gpu_index g = (\<lambda>(z, y, x). x + gpu_dim_x g * y + gpu_dim_x g * gpu_dim_y g * z)"

definition ek_index :: "EK_parameters \<Rightarrow> int \<times> int \<times> int \<Rightarrow> int" where
  "ek_index ek = (\<lambda>(z, y, x). ek_dim_y ek * ek_dim_x ek * z + ek_dim_x ek * y + x)"

text \<open>
  The electrokinetic quantities. \<open>gpu_inside\<close>: the boundary reports a distance \<open>\<le> 0\<close> at the
  node. \<open>wall_charge\<close>: what one registry entry adds at a position (lines 146-155), charge
  density times cell volume if the boundary is charged and reports a distance \<open>\<le> 0\<close>.
  \<open>gpu_charged\<close> and \<open>node_charge\<close>: the values of \<open>node_charged\<close> and \<open>node_wallcharge\<close> after
  the scan at a node.
\<close>

definition gpu_inside :: "system \<Rightarrow> ptr \<Rightarrow> int \<times> int \<times> int \<Rightarrow> bool" where
  "gpu_inside sys r p \<longleftrightarrow> fst (calc_dist (heap sys r) (gpu_pos_of sys p)) \<le> 0"

definition wall_charge :: "(ptr \<Rightarrow> LBBoundary) \<Rightarrow> real \<Rightarrow> Vector3d \<Rightarrow> ptr \<Rightarrow> real" where
  "wall_charge h cell pos q =
     (if fst (calc_dist (h q) pos) \<le> 0 \<and> charge_density (h q) \<noteq> 0
      then charge_density (h q) * cell * cell * cell else 0)"

definition gpu_charged :: "system \<Rightarrow> int \<times> int \<times> int \<Rightarrow> bool" where
  "gpu_charged sys = (\<lambda>(z, y, x).
     list_ex (\<lambda>q. fst (calc_dist (heap sys q) (gpu_pos sys x y z)) \<le> 0 \<and>
                  charge_density (heap sys q) \<noteq> 0) (lbboundaries sys))"

definition node_charge :: "system \<Rightarrow> int \<times> int \<times> int \<Rightarrow> real" where
  "node_charge sys = (\<lambda>(z, y, x).
     sum_list (map (wall_charge (heap sys) (ek_agrid (ek_parameters sys)) (gpu_pos sys x y z))
       (lbboundaries sys)))"

text \<open>
  The state before the first node (lines 76-115): the species that carries the wall
  charge, the buffer as gathered, the local variables, the channel of runtime errors; and
  the state after the last node (lines 203-212).
\<close>

definition gpu_ws :: "system \<Rightarrow> int" where
  "gpu_ws sys = (if ek_initialized sys then find_wallcharge_species (ek_parameters sys) else - 1)"

definition gpu_buffer0 :: "system \<Rightarrow> real list" where
  "gpu_buffer0 sys =
     (if ek_initialized sys
      then map (ek_gather sys (gpu_ws sys)) [0 ..< nat (ek_number_of_nodes (ek_parameters sys))]
      else [])"

definition gpu_L0 :: "system \<Rightarrow> gpu_locals" where
  "gpu_L0 sys =
     \<lparr>cur_dist = 0, boundary_number = - 1, node_charged = False, node_wallcharge = 0,
      objects = reset_net_charges (lbboundaries sys) (heap sys), number_of_boundnodes = 0,
      host_boundary_node_list = [], host_boundary_index_list = [],
      host_wallcharge_species_density = gpu_buffer0 sys,
      lbpar_number_of_boundnodes = gpu_number_of_boundnodes (lbpar_gpu sys),
      ekpar_number_of_boundary_nodes = ek_number_of_boundary_nodes (ek_parameters sys)\<rparr>"

definition gpu_errors :: "system \<Rightarrow> string list" where
  "gpu_errors sys =
     (if ek_initialized sys \<and> gpu_ws sys = - 1 \<and>
         list_ex (\<lambda>b. charge_density (heap sys b) \<noteq> 0) (lbboundaries sys)
      then runtime_errors sys @ [no_charged_species_message]
      else runtime_errors sys)"

definition gpu_final :: "system \<Rightarrow> gpu_locals \<Rightarrow> system" where
  "gpu_final sys L =
     sys\<lparr>heap := objects L,
         runtime_errors := gpu_errors sys,
         lbpar_gpu := (lbpar_gpu sys)\<lparr>gpu_number_of_boundnodes := lbpar_number_of_boundnodes L\<rparr>,
         ek_parameters := (ek_parameters sys)
           \<lparr>ek_number_of_boundary_nodes := ekpar_number_of_boundary_nodes L\<rparr>,
         lb_boundaries_gpu := Some
           \<lparr>host_n_lb_boundaries = int (length (lbboundaries sys)),
            host_number_of_boundnodes = number_of_boundnodes L,
            host_boundary_nodes = host_boundary_node_list L,
            host_boundary_indices = host_boundary_index_list L,
            host_boundary_velocity = boundary_velocity (objects L) (lbboundaries sys)\<rparr>,
         ek_wallcharge := (if ek_initialized sys
                           then Some (host_wallcharge_species_density L, gpu_ws sys)
                           else ek_wallcharge sys)\<rparr>"

text \<open>
  Two stores have the \<open>same_shapes\<close> if their objects differ in net charge at most. A
  list of \<open>n\<close> entries \<open>padded\<close> is the host list after \<open>n\<close> appends: \<open>resize\<close> has made it
  \<open>sizeof(int)\<close> times as long as needed. \<open>gpu_inv\<close> is the invariant of the sweep: the
  local state \<open>L\<close> after the nodes \<open>ps\<close>, started in \<open>L0\<close>. \<open>same_setup\<close>: two systems agree in
  all the GPU pass reads, net charges and gathered data apart.
\<close>

definition same_shapes :: "(ptr \<Rightarrow> LBBoundary) \<Rightarrow> (ptr \<Rightarrow> LBBoundary) \<Rightarrow> bool" where
  "same_shapes h h' \<longleftrightarrow>
     (\<forall>q. calc_dist (h q) = calc_dist (h' q) \<and> charge_density (h q) = charge_density (h' q) \<and>
          velocity (h q) = velocity (h' q))"

definition padded :: "int list \<Rightarrow> int list" where
  "padded xs = xs @ replicate (3 * length xs) 0"

definition gpu_inv :: "system \<Rightarrow> int \<Rightarrow> gpu_locals \<Rightarrow> (int \<times> int \<times> int) list \<Rightarrow> gpu_locals \<Rightarrow> bool" where
  "gpu_inv sys ws L0 ps L \<longleftrightarrow>
     number_of_boundnodes L = int (length (filter (gpu_owned sys) ps)) \<and>
     host_boundary_node_list L = padded (map (gpu_index (lbpar_gpu sys)) (filter (gpu_owned sys) ps)) \<and>
     host_boundary_index_list L =
       padded (map (\<lambda>p. snd (gpu_best sys p) + 1) (filter (gpu_owned sys) ps)) \<and>
     same_shapes (objects L) (heap sys) \<and>
     (\<forall>r. net_charge (objects L r) = net_charge (objects L0 r) +
          (if ek_initialized sys
           then real (count_list (lbboundaries sys) r) *
                sum_list (map (\<lambda>p. wall_charge (heap sys) (ek_agrid (ek_parameters sys))
                                      (gpu_pos_of sys p) r) ps)
           else 0)) \<and>
     host_wallcharge_species_density L =
       (if ek_initialized sys \<and> ws \<noteq> - 1
        then apply_writes (\<lambda>p. nat (ek_index (ek_parameters sys) p))
               (\<lambda>p v. node_charge sys p / ek_valency (ek_parameters sys) (nat ws))
               (filter (gpu_charged sys) ps) (host_wallcharge_species_density L0)
        else host_wallcharge_species_density L0) \<and>
     lbpar_number_of_boundnodes L =
       (if ps = [] then lbpar_number_of_boundnodes L0 else number_of_boundnodes L) \<and>
     ekpar_number_of_boundary_nodes L =
       (if ps = [] \<or> \<not> ek_initialized sys then ekpar_number_of_boundary_nodes L0
        else number_of_boundnodes L)"

definition same_setup :: "system \<Rightarrow> system \<Rightarrow> bool" where
  "same_setup t s \<longleftrightarrow>
     same_shapes (heap t) (heap s) \<and> lbboundaries t = lbboundaries s \<and>
     gpu_agrid (lbpar_gpu t) = gpu_agrid (lbpar_gpu s) \<and>
     gpu_dim_x (lbpar_gpu t) = gpu_dim_x (lbpar_gpu s) \<and>
     gpu_dim_y (lbpar_gpu t) = gpu_dim_y (lbpar_gpu s) \<and>
     gpu_dim_z (lbpar_gpu t) = gpu_dim_z (lbpar_gpu s) \<and>
     ek_agrid (ek_parameters t) = ek_agrid (ek_parameters s) \<and>
     ek_dim_x (ek_parameters t) = ek_dim_x (ek_parameters s) \<and>
     ek_dim_y (ek_parameters t) = ek_dim_y (ek_parameters s) \<and>
     ek_number_of_nodes (ek_parameters t) = ek_number_of_nodes (ek_parameters s) \<and>
     ek_number_of_species (ek_parameters t) = ek_number_of_species (ek_parameters s) \<and>
     ek_valency (ek_parameters t) = ek_valency (ek_parameters s) \<and>
     ek_initialized t = ek_initialized s"

section \<open>Observations and example systems\<close>

text \<open>
  \<open>outcome f r\<close> observes \<open>f\<close> on the state a call returned, if it returned one. The
  observations: the net charge of an object, the owners (index plus one) of the nodes
  handed to the device, and the buffer handed back to the electrokinetic solver.
\<close>

definition outcome :: "('s \<Rightarrow> 'a) \<Rightarrow> error + 's \<Rightarrow> 'a option" where
  "outcome f r = (case r of Inl e \<Rightarrow> None | Inr s \<Rightarrow> Some (f s))"

definition net_charge_of :: "ptr \<Rightarrow> system \<Rightarrow> real" where
  "net_charge_of p s = net_charge (heap s p)"

definition owner_list :: "system \<Rightarrow> int list" where
  "owner_list s =
     (case lb_boundaries_gpu s of None \<Rightarrow> []
      | Some up \<Rightarrow> take (nat (host_number_of_boundnodes up)) (host_boundary_indices up))"

definition wallcharge_buffer :: "system \<Rightarrow> real list" where
  "wallcharge_buffer s = (case ek_wallcharge s of None \<Rightarrow> [] | Some x \<Rightarrow> fst x)"

text \<open>
  A planar wall that fills the half space \<open>x \<ge> x0\<close>: the signed distance of a position is
  \<open>x0 - x\<close>, negative inside. Objects 0 and 1 are walls at \<open>x = 2\<close>, every other object is
  a wall at \<open>x = 5/2\<close>.
\<close>

definition wall :: "real \<Rightarrow> Vector3d \<Rightarrow> real \<Rightarrow> real \<Rightarrow> LBBoundary" where
  "wall x0 v c q =
     \<lparr>calc_dist = (\<lambda>pos. (x0 - fst pos, (x0 - fst pos, 0, 0))),
      velocity = v, charge_density = c, net_charge = q\<rparr>"

definition ex_heap :: "ptr \<Rightarrow> LBBoundary" where
  "ex_heap p = (if p = 0 then wall 2 (0, 0, 1) 2 7
                else if p = 1 then wall 2 (0, 0, 0) 1 0
                else wall (5 / 2) (1, 0, 0) 1 0)"

text \<open>
  \<open>ex_cpu\<close>: one process, a grid of one cell (a halo grid of 27 nodes) of cell size 2, object
  0 registered, every node with a stale flag and slip velocity. \<open>ex_gpu\<close>: the same with
  the GPU backend, a global grid of \<open>2 \<times> 1 \<times> 1\<close> cells with the centres at \<open>x = 1\<close> and
  \<open>x = 3\<close>, an initialised electrokinetic solver with one species of valency 1 whose gather
  fills the buffer with 5. The others change the registry or the solver.
\<close>

definition ex_cpu :: system where
  "ex_cpu =
     \<lparr>lattice_switch = CPU, this_node = 0, lbboundaries = [0], heap = ex_heap,
      lbfields = replicate 27 \<lparr>boundary = 5, slip_velocity = (1, 1, 1)\<rparr>,
      lblattice = \<lparr>grid = (1, 1, 1), halo_grid = (3, 3, 3), halo_grid_volume = 27, agrid = 2\<rparr>,
      node_pos = (0, 0, 0), lb_tau = 1, lb_agrid = 2,
      lbpar_gpu = \<lparr>gpu_agrid = 2, gpu_dim_x = 2, gpu_dim_y = 1, gpu_dim_z = 1,
                   gpu_number_of_boundnodes = 0\<rparr>,
      ek_parameters = \<lparr>ek_agrid = 2, ek_dim_x = 2, ek_dim_y = 1, ek_number_of_nodes = 2,
                       ek_number_of_species = 1, ek_valency = (\<lambda>n. 1),
                       ek_number_of_boundary_nodes = 0\<rparr>,
      ek_initialized = True, ek_gather = (\<lambda>ws i. 5), runtime_errors = [],
      lb_boundaries_gpu = None, ek_wallcharge = None\<rparr>"

definition ex_gpu :: system where
  "ex_gpu = ex_cpu\<lparr>lattice_switch := GPU\<rparr>"

definition ex_dup :: system where
  "ex_dup = ex_cpu\<lparr>lbboundaries := [0, 1, 0, 2]\<rparr>"

definition ex_empty :: system where
  "ex_empty = ex_cpu\<lparr>lbboundaries := []\<rparr>"

definition ex_overlap :: system where
  "ex_overlap = ex_gpu\<lparr>lbboundaries := [0, 2]\<rparr>"

definition ex_gpu_empty :: system where
  "ex_gpu_empty = ex_gpu\<lparr>lbboundaries := []\<rparr>"

definition ex_no_ek :: system where
  "ex_no_ek = ex_gpu\<lparr>ek_initialized := False,
     ek_parameters := (ek_parameters ex_gpu)\<lparr>ek_number_of_species := 0\<rparr>\<rparr>"

definition ex_no_species :: system where
  "ex_no_species = ex_gpu\<lparr>ek_parameters := (ek_parameters ex_gpu)\<lparr>ek_number_of_species := 0\<rparr>\<rparr>"

section \<open>Properties of the scan\<close>

lemma scan_cpu_snoc:
  "scan_cpu store (ps @ [p]) pos n acc =
     (case scan_cpu store ps pos n acc of (d, k) \<Rightarrow>
        if fst (calc_dist (store p) pos) < d \<or> n + int (length ps) = 0
        then (fst (calc_dist (store p) pos), n + int (length ps)) else (d, k))"
proof (induction ps arbitrary: n acc)
  case Nil
  show ?case by (cases acc) (simp add: Let_def)
next
  case (Cons q qs)
  obtain d k where acc: "acc = (d, k)" by (cases acc)
  show ?case
    unfolding acc by (simp add: Let_def Cons.IH ac_simps split: prod.splits)
qed

lemma nearest_first_single: "nearest_first [x] x 0"
  by (simp add: nearest_first_def)

lemma nearest_first_keep:
  assumes "nearest_first ds d k" and "\<not> x < d"
  shows "nearest_first (ds @ [x]) d k"
  using assms
  by (auto simp: nearest_first_def nth_append less_Suc_eq)

lemma nearest_first_replace:
  assumes "nearest_first ds d k" and "x < d"
  shows "nearest_first (ds @ [x]) x (int (length ds))"
  using assms
  by (fastforce simp: nearest_first_def nth_append less_Suc_eq)

lemma scan_cpu_nearest:
  "registry \<noteq> [] \<Longrightarrow>
   nearest_first (distances store registry pos)
     (fst (scan_cpu store registry pos 0 acc)) (snd (scan_cpu store registry pos 0 acc))"
proof (induction registry rule: rev_induct)
  case Nil
  then show ?case by simp
next
  case (snoc p ps)
  show ?case
  proof (cases "ps = []")
    case True
    then show ?thesis
      by (cases acc) (simp add: distances_def nearest_first_single Let_def)
  next
    case False
    obtain d k where r: "scan_cpu store ps pos 0 acc = (d, k)"
      by (cases "scan_cpu store ps pos 0 acc")
    from snoc.IH [OF False] r
    have ih: "nearest_first (distances store ps pos) d k" by simp
    have len: "length (distances store ps pos) = length ps"
      by (simp add: distances_def)
    have app: "distances store (ps @ [p]) pos =
               distances store ps pos @ [fst (calc_dist (store p) pos)]"
      by (simp add: distances_def)
    from False have nz: "int (length ps) \<noteq> 0" by simp
    show ?thesis
    proof (cases "fst (calc_dist (store p) pos) < d")
      case True
      from nearest_first_replace [OF ih True] True nz show ?thesis
        by (simp add: scan_cpu_snoc r app len)
    next
      case False
      from nearest_first_keep [OF ih False] False nz show ?thesis
        by (simp add: scan_cpu_snoc r app)
    qed
  qed
qed

lemma scan_cpu_cong_store:
  "(\<And>p. calc_dist (st p) = calc_dist (st' p)) \<Longrightarrow>
   scan_cpu st ps pos n acc = scan_cpu st' ps pos n acc"
  by (induction st ps pos n acc rule: scan_cpu.induct) (simp_all add: Let_def)

lemma scan_gpu_body_members:
  "calc_dist (objects (scan_gpu_body e c pos lbb n s) q) = calc_dist (objects s q)"
  "charge_density (objects (scan_gpu_body e c pos lbb n s) q) = charge_density (objects s q)"
  "velocity (objects (scan_gpu_body e c pos lbb n s) q) = velocity (objects s q)"
  by (simp_all add: scan_gpu_body_def Let_def set_net_charge_def)

lemma scan_gpu_body_best:
  "cur_dist (scan_gpu_body e c pos lbb n s) =
     (if fst (calc_dist (objects s lbb) pos) < cur_dist s \<or> n = 0
      then fst (calc_dist (objects s lbb) pos) else cur_dist s)"
  "boundary_number (scan_gpu_body e c pos lbb n s) =
     (if fst (calc_dist (objects s lbb) pos) < cur_dist s \<or> n = 0
      then n else boundary_number s)"
  by (simp_all add: scan_gpu_body_def Let_def)

lemma scan_gpu_best:
  "(cur_dist (scan_gpu e c pos ps n s), boundary_number (scan_gpu e c pos ps n s)) =
   scan_cpu (objects s) ps pos n (cur_dist s, boundary_number s)"
proof (induction ps arbitrary: n s)
  case Nil
  show ?case by simp
next
  case (Cons p ps)
  have "scan_cpu (objects (scan_gpu_body e c pos p n s)) ps pos (n + 1) acc =
        scan_cpu (objects s) ps pos (n + 1) acc" for acc
    by (rule scan_cpu_cong_store) (simp add: scan_gpu_body_members)
  then show ?case
    by (simp add: Cons.IH scan_gpu_body_best Let_def)
qed

lemma scan_gpu_best_proj:
  "cur_dist (scan_gpu e c pos ps n s) = fst (scan_cpu (objects s) ps pos n (cur_dist s, boundary_number s))"
  "boundary_number (scan_gpu e c pos ps n s) = snd (scan_cpu (objects s) ps pos n (cur_dist s, boundary_number s))"
  using scan_gpu_best [of e c pos ps n s] by (simp_all add: prod_eq_iff)

text \<open>
  Claim C1. At every position and for every non-empty registry, the scan of the CPU branch
  and the scan of the GPU branch both end with the smallest of the distances the
  boundaries report and with the index of the first boundary that reports it: every
  boundary before the selected one is strictly farther.
\<close>

theorem scan_selects_nearest_first:
  assumes "registry \<noteq> []"
  shows "nearest_first (distances store registry pos)
           (fst (scan_cpu store registry pos 0 (dist_init, the_boundary)))
           (snd (scan_cpu store registry pos 0 (dist_init, the_boundary))) \<and>
         nearest_first (distances (objects L) registry pos)
           (cur_dist (scan_gpu e c pos registry 0 (L\<lparr>cur_dist := dist_init\<rparr>)))
           (boundary_number (scan_gpu e c pos registry 0 (L\<lparr>cur_dist := dist_init\<rparr>)))"
proof
  show "nearest_first (distances store registry pos)
           (fst (scan_cpu store registry pos 0 (dist_init, the_boundary)))
           (snd (scan_cpu store registry pos 0 (dist_init, the_boundary)))"
    using assms by (rule scan_cpu_nearest)
next
  let ?L = "L\<lparr>cur_dist := dist_init\<rparr>"
  have "nearest_first (distances (objects ?L) registry pos)
          (fst (scan_cpu (objects ?L) registry pos 0 (cur_dist ?L, boundary_number ?L)))
          (snd (scan_cpu (objects ?L) registry pos 0 (cur_dist ?L, boundary_number ?L)))"
    using assms by (rule scan_cpu_nearest)
  then show "nearest_first (distances (objects L) registry pos)
           (cur_dist (scan_gpu e c pos registry 0 ?L))
           (boundary_number (scan_gpu e c pos registry 0 ?L))"
    by (simp add: scan_gpu_best_proj)
qed

theorem scan_selects_nearest_first_witness:
  "[0, 1] \<noteq> ([] :: ptr list) \<and>
   nearest_first (distances ex_heap [0, 1] (5 / 2, 0, 0))
     (fst (scan_cpu ex_heap [0, 1] (5 / 2, 0, 0) 0 (dist_init, - 1)))
     (snd (scan_cpu ex_heap [0, 1] (5 / 2, 0, 0) 0 (dist_init, - 1))) \<and>
   snd (scan_cpu ex_heap [0, 1] (5 / 2, 0, 0) 0 (dist_init, - 1)) = 0"
  using scan_selects_nearest_first [of "[0, 1]" ex_heap "(5 / 2, 0, 0)" "- 1"]
  by (simp add: ex_heap_def wall_def dist_init_def Let_def)

section \<open>Loops and writes\<close>

lemma for_each_append:
  "for_each (xs @ ys) body s =
     (case for_each xs body s of Inl e \<Rightarrow> Inl e | Inr s' \<Rightarrow> for_each ys body s')"
  by (induction xs arbitrary: s) (simp_all split: sum.splits)

lemma for_each_product:
  "for_each xs (\<lambda>x. for_each ys (g x)) s = for_each (List.product xs ys) (\<lambda>(x, y). g x y) s"
proof (induction xs arbitrary: s)
  case Nil
  show ?case by simp
next
  case (Cons x xs)
  have inner: "for_each (map (Pair x) ys) (\<lambda>(x, y). g x y) t = for_each ys (g x) t" for t
    by (induction ys arbitrary: t) (simp_all split: sum.splits)
  show ?case
    by (simp add: for_each_append inner Cons.IH split: sum.splits)
qed

lemma length_apply_writes [simp]: "length (apply_writes idx upd ps vs) = length vs"
  unfolding apply_writes_def by (induction ps arbitrary: vs) simp_all

lemma apply_writes_snoc:
  "apply_writes idx upd (ps @ [p]) vs =
     (apply_writes idx upd ps vs)[idx p := upd p (apply_writes idx upd ps vs ! idx p)]"
  by (simp add: apply_writes_def)

lemma apply_writes_other:
  "i \<notin> idx ` set ps \<Longrightarrow> apply_writes idx upd ps vs ! i = vs ! i"
  by (induction ps rule: rev_induct) (simp_all add: apply_writes_snoc apply_writes_def)

lemma apply_writes_hit:
  "distinct (map idx ps) \<Longrightarrow> p \<in> set ps \<Longrightarrow> idx p < length vs \<Longrightarrow>
   apply_writes idx upd ps vs ! idx p = upd p (vs ! idx p)"
proof (induction ps rule: rev_induct)
  case Nil
  then show ?case by simp
next
  case (snoc q qs)
  show ?case
  proof (cases "p = q")
    case True
    with snoc.prems have "idx q \<notin> idx ` set qs" by auto
    with True snoc.prems show ?thesis
      by (simp add: apply_writes_snoc apply_writes_other)
  next
    case False
    with snoc.prems have pq: "p \<in> set qs" by simp
    from snoc.prems have "idx q \<notin> idx ` set qs" by simp
    with pq have "idx p \<noteq> idx q" by (metis imageI)
    note pq this
    with snoc show ?thesis
      by (simp add: apply_writes_snoc)
  qed
qed

section \<open>Linear indices\<close>

lemma linear_split:
  fixes a b d :: int
  assumes "0 \<le> a" "a < d" "0 \<le> a'" "a' < d" "a + d * b = a' + d * b'"
  shows "a = a' \<and> b = b'"
proof -
  have "(a + d * b) mod d = a" "(a' + d * b') mod d = a'"
    using assms(1-4) by simp_all
  with assms(5) have a: "a = a'" by metis
  with assms have "d * b = d * b'" by simp
  with assms have "b = b'" by simp
  with a show ?thesis by simp
qed

lemma linear_index_inj:
  fixes x y z dx dy :: int
  assumes "0 \<le> x" "x < dx" "0 \<le> x'" "x' < dx" "0 \<le> y" "y < dy" "0 \<le> y'" "y' < dy"
    and "x + dx * (y + dy * z) = x' + dx * (y' + dy * z')"
  shows "x = x' \<and> y = y' \<and> z = z'"
proof -
  from linear_split [OF assms(1-4) assms(9)]
  have x: "x = x'" and w: "y + dy * z = y' + dy * z'" by simp_all
  from linear_split [OF assms(5-8) w] x show ?thesis by simp
qed

lemma linear_index_bounds:
  fixes x y z dx dy dz :: int
  assumes "0 \<le> x" "x < dx" "0 \<le> y" "y < dy" "0 \<le> z" "z < dz"
  shows "0 \<le> x + dx * (y + dy * z)" and "x + dx * (y + dy * z) < dx * dy * dz"
proof -
  have "dy * z \<le> dy * (dz - 1)"
    using assms by (intro mult_left_mono) simp_all
  then have w: "y + dy * z \<le> dy * dz - 1"
    using assms by (simp add: algebra_simps)
  have w0: "0 \<le> y + dy * z" using assms by simp
  have "dx * (y + dy * z) \<le> dx * (dy * dz - 1)"
    using assms w by (intro mult_left_mono) simp_all
  then show "x + dx * (y + dy * z) < dx * dy * dz"
    using assms by (simp add: algebra_simps)
  show "0 \<le> x + dx * (y + dy * z)" using assms w0 by simp
qed

section \<open>The CPU pass\<close>

lemma scan_cpu_first:
  "registry \<noteq> [] \<Longrightarrow>
   scan_cpu st registry pos 0 (d, k) = scan_cpu st registry pos 0 (d', k')"
  by (cases registry) (simp_all add: Let_def)

lemma cpu_node_writes:
  assumes "0 \<le> get_linear_index x y z (halo_grid (lblattice sys))"
    and "cpu_index (lblattice sys) (z, y, x) < length fs"
  shows "\<exists>tb'. cpu_node sys z y x (tb, fs) =
           Inr (tb', fs[cpu_index (lblattice sys) (z, y, x) :=
                  cpu_classify sys (z, y, x) (fs ! cpu_index (lblattice sys) (z, y, x))])"
proof (cases "lbboundaries sys = []")
  case True
  with assms show ?thesis
    by (simp add: cpu_node_def cpu_classify_def cpu_index_def Let_def)
next
  case False
  let ?pos = "cpu_pos sys x y z"
  have eq: "scan_cpu (heap sys) (lbboundaries sys) ?pos 0 (dist_init, tb) = cpu_best sys (z, y, x)"
    unfolding cpu_best_def using scan_cpu_first [OF False] by simp
  have "nearest_first (distances (heap sys) (lbboundaries sys) ?pos)
          (fst (cpu_best sys (z, y, x))) (snd (cpu_best sys (z, y, x)))"
    unfolding cpu_best_def using scan_cpu_nearest [OF False] by simp
  then have k: "0 \<le> snd (cpu_best sys (z, y, x))"
    "nat (snd (cpu_best sys (z, y, x))) < length (lbboundaries sys)"
    by (simp_all add: nearest_first_def distances_def)
  from assms False k show ?thesis
    by (simp add: cpu_node_def cpu_classify_def cpu_index_def Let_def eq)
qed

lemma cpu_sweep:
  assumes "\<forall>p \<in> set ps. 0 \<le> (case p of (z, y, x) \<Rightarrow> get_linear_index x y z (halo_grid (lblattice sys)))
             \<and> cpu_index (lblattice sys) p < length fs"
  shows "\<exists>tb'. for_each ps (\<lambda>(z, y, x). cpu_node sys z y x) (tb, fs) =
           Inr (tb', apply_writes (cpu_index (lblattice sys)) (cpu_classify sys) ps fs)"
  using assms
proof (induction ps rule: rev_induct)
  case Nil
  show ?case by (simp add: apply_writes_def)
next
  case (snoc q qs)
  then obtain tb' where run: "for_each qs (\<lambda>(z, y, x). cpu_node sys z y x) (tb, fs) =
      Inr (tb', apply_writes (cpu_index (lblattice sys)) (cpu_classify sys) qs fs)"
    by auto
  obtain z y x where q: "q = (z, y, x)" by (cases q)
  from snoc.prems q
  have "0 \<le> get_linear_index x y z (halo_grid (lblattice sys))"
    and "cpu_index (lblattice sys) (z, y, x) <
         length (apply_writes (cpu_index (lblattice sys)) (cpu_classify sys) qs fs)"
    by simp_all
  from cpu_node_writes [OF this, of tb'] show ?case
    by (auto simp: for_each_append run q apply_writes_snoc)
qed

lemma loops_product:
  "for_each zs (\<lambda>z. for_each ys (\<lambda>y. for_each xs (\<lambda>x. body z y x))) s =
   for_each (List.product zs (List.product ys xs)) (\<lambda>(z, y, x). body z y x) s"
proof -
  have "(\<lambda>z. for_each ys (\<lambda>y. for_each xs (\<lambda>x. body z y x))) =
        (\<lambda>z. for_each (List.product ys xs) (\<lambda>(y, x). body z y x))"
    by (intro ext) (simp add: for_each_product)
  then show ?thesis
    by (simp add: for_each_product)
qed

lemma reset_all:
  "m \<le> length fs \<Longrightarrow>
   for_each [0 .. int m - 1] reset_boundary fs =
     Inr (map (\<lambda>node. node\<lparr>boundary := 0\<rparr>) (take m fs) @ drop m fs)"
proof (induction m)
  case 0
  show ?case by simp
next
  case (Suc m)
  have up: "[0 .. int m] = [0 .. int m - 1] @ [int m]"
    using upto_rec2 [of 0 "int m"] by simp
  have step: "for_each [0 .. int (Suc m) - 1] reset_boundary fs =
      (case for_each [0 .. int m - 1] reset_boundary fs of
         Inl e \<Rightarrow> Inl e | Inr fs' \<Rightarrow> reset_boundary (int m) fs')"
    by (simp add: for_each_append up split: sum.splits)
  from Suc.prems have m: "m < length fs" by simp
  have "(map (\<lambda>node. node\<lparr>boundary := 0\<rparr>) (take m fs) @ drop m fs)
          [m := ((map (\<lambda>node. node\<lparr>boundary := 0\<rparr>) (take m fs) @ drop m fs) ! m)\<lparr>boundary := 0\<rparr>] =
        map (\<lambda>node. node\<lparr>boundary := 0\<rparr>) (take (Suc m) fs) @ drop (Suc m) fs"
    using m by (simp add: take_Suc_conv_app_nth list_update_append nth_append Cons_nth_drop_Suc [symmetric])
  with m have rb: "reset_boundary (int m)
        (map (\<lambda>node. node\<lparr>boundary := 0\<rparr>) (take m fs) @ drop m fs) =
      Inr (map (\<lambda>node. node\<lparr>boundary := 0\<rparr>) (take (Suc m) fs) @ drop (Suc m) fs)"
    by (simp add: reset_boundary_def)
  from Suc have ih: "for_each [0 .. int m - 1] reset_boundary fs =
      Inr (map (\<lambda>node. node\<lparr>boundary := 0\<rparr>) (take m fs) @ drop m fs)"
    by simp
  show ?case
    unfolding step ih using rb by simp
qed

lemma halo_nodes_range:
  assumes "(z, y, x) \<in> set (halo_nodes lat)"
  shows "0 \<le> x \<and> x < fst (grid lat) + 2 \<and> 0 \<le> y \<and> y < fst (snd (grid lat)) + 2 \<and>
         0 \<le> z \<and> z < snd (snd (grid lat)) + 2"
  using assms by (auto simp: halo_nodes_def)

lemma cpu_pass_regular:
  assumes "wf_lattice sys" and "halo_grid_volume (lblattice sys) \<noteq> 0"
  shows "lb_init_boundaries_cpu sys = Inr (sys\<lparr>lbfields := cpu_result sys\<rparr>)"
proof -
  let ?lat = "lblattice sys"
  let ?gx = "fst (grid ?lat)" and ?gy = "fst (snd (grid ?lat))" and ?gz = "snd (snd (grid ?lat))"
  let ?fs = "map (\<lambda>node. node\<lparr>boundary := 0\<rparr>) (lbfields sys)"
  from assms have g: "0 \<le> ?gx" "0 \<le> ?gy" "0 \<le> ?gz"
    and hg: "halo_grid ?lat = (?gx + 2, ?gy + 2, ?gz + 2)"
    and vol: "halo_grid_volume ?lat = (?gx + 2) * (?gy + 2) * (?gz + 2)"
    and len: "int (length (lbfields sys)) = halo_grid_volume ?lat"
    by (simp_all add: wf_lattice_def Let_def)
  from len have "for_each [0 .. halo_grid_volume ?lat - 1] reset_boundary (lbfields sys) =
                 for_each [0 .. int (length (lbfields sys)) - 1] reset_boundary (lbfields sys)"
    by simp
  also have "\<dots> = Inr ?fs"
    using reset_all [of "length (lbfields sys)" "lbfields sys"] by simp
  finally have reset: "for_each [0 .. halo_grid_volume ?lat - 1] reset_boundary (lbfields sys) = Inr ?fs" .
  have range: "\<forall>p \<in> set (halo_nodes ?lat).
      0 \<le> (case p of (z, y, x) \<Rightarrow> get_linear_index x y z (halo_grid ?lat)) \<and>
      cpu_index ?lat p < length ?fs"
  proof
    fix p assume p: "p \<in> set (halo_nodes ?lat)"
    obtain z y x where pz: "p = (z, y, x)" by (cases p)
    from halo_nodes_range p pz
    have r: "0 \<le> x" "x < ?gx + 2" "0 \<le> y" "y < ?gy + 2" "0 \<le> z" "z < ?gz + 2" by blast+
    from linear_index_bounds [OF r] len vol
    show "0 \<le> (case p of (z, y, x) \<Rightarrow> get_linear_index x y z (halo_grid ?lat)) \<and>
          cpu_index ?lat p < length ?fs"
      by (simp add: pz get_linear_index_def hg cpu_index_def)
  qed
  from cpu_sweep [OF range, of "- 1"] obtain tb' where
    "for_each (halo_nodes ?lat) (\<lambda>(z, y, x). cpu_node sys z y x) (- 1, ?fs) =
       Inr (tb', cpu_result sys)"
    unfolding cpu_result_def by blast
  then have "for_each [0 .. ?gz + 2 - 1] (\<lambda>z. for_each [0 .. ?gy + 2 - 1] (\<lambda>y.
               for_each [0 .. ?gx + 2 - 1] (\<lambda>x. cpu_node sys z y x))) (- 1, ?fs) =
             Inr (tb', cpu_result sys)"
    by (simp add: loops_product halo_nodes_def)
  with reset assms(2) show ?thesis
    by (simp add: lb_init_boundaries_cpu_def Let_def)
qed

lemma cpu_pass_empty:
  assumes "halo_grid_volume (lblattice sys) = 0"
  shows "lb_init_boundaries_cpu sys = Inr sys"
  using assms by (simp add: lb_init_boundaries_cpu_def Let_def)

section \<open>The GPU pass\<close>

lemma scan_gpu_body_frame:
  "number_of_boundnodes (scan_gpu_body e c pos lbb n s) = number_of_boundnodes s"
  "host_boundary_node_list (scan_gpu_body e c pos lbb n s) = host_boundary_node_list s"
  "host_boundary_index_list (scan_gpu_body e c pos lbb n s) = host_boundary_index_list s"
  "host_wallcharge_species_density (scan_gpu_body e c pos lbb n s) = host_wallcharge_species_density s"
  "lbpar_number_of_boundnodes (scan_gpu_body e c pos lbb n s) = lbpar_number_of_boundnodes s"
  "ekpar_number_of_boundary_nodes (scan_gpu_body e c pos lbb n s) = ekpar_number_of_boundary_nodes s"
  by (simp_all add: scan_gpu_body_def Let_def)

lemma scan_gpu_frame:
  "number_of_boundnodes (scan_gpu e c pos ps n s) = number_of_boundnodes s"
  "host_boundary_node_list (scan_gpu e c pos ps n s) = host_boundary_node_list s"
  "host_boundary_index_list (scan_gpu e c pos ps n s) = host_boundary_index_list s"
  "host_wallcharge_species_density (scan_gpu e c pos ps n s) = host_wallcharge_species_density s"
  "lbpar_number_of_boundnodes (scan_gpu e c pos ps n s) = lbpar_number_of_boundnodes s"
  "ekpar_number_of_boundary_nodes (scan_gpu e c pos ps n s) = ekpar_number_of_boundary_nodes s"
  by (induction ps arbitrary: n s; simp add: scan_gpu_body_frame)+

lemma scan_gpu_members:
  "calc_dist (objects (scan_gpu e c pos ps n s) q) = calc_dist (objects s q)"
  "charge_density (objects (scan_gpu e c pos ps n s) q) = charge_density (objects s q)"
  "velocity (objects (scan_gpu e c pos ps n s) q) = velocity (objects s q)"
  by (induction ps arbitrary: n s; simp add: scan_gpu_body_members)+

lemma wall_charge_cong:
  "calc_dist (h q) = calc_dist (h' q) \<Longrightarrow> charge_density (h q) = charge_density (h' q) \<Longrightarrow>
   wall_charge h c pos q = wall_charge h' c pos q"
  by (simp add: wall_charge_def)

lemma scan_gpu_body_charge:
  "net_charge (objects (scan_gpu_body e c pos lbb n s) r) =
     net_charge (objects s r) + (if e \<and> r = lbb then wall_charge (objects s) c pos r else 0)"
  "node_wallcharge (scan_gpu_body e c pos lbb n s) =
     node_wallcharge s + (if e then wall_charge (objects s) c pos lbb else 0)"
  "node_charged (scan_gpu_body e c pos lbb n s) \<longleftrightarrow>
     node_charged s \<or> (e \<and> fst (calc_dist (objects s lbb) pos) \<le> 0 \<and> charge_density (objects s lbb) \<noteq> 0)"
  by (auto simp: scan_gpu_body_def Let_def wall_charge_def set_net_charge_def)

lemma scan_gpu_net_charge:
  "net_charge (objects (scan_gpu e c pos ps n s) r) =
     net_charge (objects s r) +
     (if e then real (count_list ps r) * wall_charge (objects s) c pos r else 0)"
proof (induction ps arbitrary: n s)
  case Nil
  show ?case by simp
next
  case (Cons p ps)
  have "wall_charge (objects (scan_gpu_body e' c pos p n s)) c pos r' = wall_charge (objects s) c pos r'"
    for e' r'
    by (rule wall_charge_cong) (simp_all add: scan_gpu_body_members)
  then show ?case
    by (simp add: Cons.IH scan_gpu_body_charge algebra_simps)
qed

lemma scan_gpu_node_wallcharge:
  "node_wallcharge (scan_gpu e c pos ps n s) =
     node_wallcharge s + (if e then sum_list (map (wall_charge (objects s) c pos) ps) else 0)"
proof (induction ps arbitrary: n s)
  case Nil
  show ?case by simp
next
  case (Cons p ps)
  have "wall_charge (objects (scan_gpu_body e' c pos p n s)) c pos = wall_charge (objects s) c pos"
    for e'
    by (intro ext wall_charge_cong) (simp_all add: scan_gpu_body_members)
  then show ?case
    by (simp add: Cons.IH scan_gpu_body_charge)
qed

lemma scan_gpu_node_charged:
  "node_charged (scan_gpu e c pos ps n s) \<longleftrightarrow>
     node_charged s \<or> (e \<and> (\<exists>q \<in> set ps. fst (calc_dist (objects s q) pos) \<le> 0 \<and>
                                          charge_density (objects s q) \<noteq> 0))"
proof (induction ps arbitrary: n s)
  case Nil
  show ?case by simp
next
  case (Cons p ps)
  show ?case
    by (simp add: Cons.IH scan_gpu_body_charge scan_gpu_body_members) blast
qed

lemma gpu_node_result:
  assumes J: "same_shapes (objects L) (heap sys)"
    and R: "ek_initialized sys \<and> ws \<noteq> - 1 \<and> gpu_charged sys (z, y, x) \<longrightarrow>
            0 \<le> ek_index (ek_parameters sys) (z, y, x) \<and>
            nat (ek_index (ek_parameters sys) (z, y, x)) < length (host_wallcharge_species_density L)"
  shows "\<exists>L'. gpu_node sys ws z y x L = Inr L' \<and>
    number_of_boundnodes L' =
      number_of_boundnodes L + (if gpu_owned sys (z, y, x) then 1 else 0) \<and>
    host_boundary_node_list L' =
      (if gpu_owned sys (z, y, x)
       then (resize ((number_of_boundnodes L + 1) * sizeof_int) (host_boundary_node_list L))
              [nat (number_of_boundnodes L) := gpu_index (lbpar_gpu sys) (z, y, x)]
       else host_boundary_node_list L) \<and>
    host_boundary_index_list L' =
      (if gpu_owned sys (z, y, x)
       then (resize ((number_of_boundnodes L + 1) * sizeof_int) (host_boundary_index_list L))
              [nat (number_of_boundnodes L) := snd (gpu_best sys (z, y, x)) + 1]
       else host_boundary_index_list L) \<and>
    same_shapes (objects L') (heap sys) \<and>
    (\<forall>r. net_charge (objects L' r) = net_charge (objects L r) +
          (if ek_initialized sys
           then real (count_list (lbboundaries sys) r) *
                wall_charge (heap sys) (ek_agrid (ek_parameters sys)) (gpu_pos sys x y z) r
           else 0)) \<and>
    host_wallcharge_species_density L' =
      (if ek_initialized sys \<and> ws \<noteq> - 1 \<and> gpu_charged sys (z, y, x)
       then (host_wallcharge_species_density L)
              [nat (ek_index (ek_parameters sys) (z, y, x)) :=
                 node_charge sys (z, y, x) / ek_valency (ek_parameters sys) (nat ws)]
       else host_wallcharge_species_density L) \<and>
    lbpar_number_of_boundnodes L' = number_of_boundnodes L' \<and>
    ekpar_number_of_boundary_nodes L' =
      (if ek_initialized sys then number_of_boundnodes L' else ekpar_number_of_boundary_nodes L)"
proof -
  let ?pos = "gpu_pos sys x y z" and ?reg = "lbboundaries sys"
  from J have cd: "\<And>q. calc_dist (objects L q) = calc_dist (heap sys q)"
    and ch: "\<And>q. charge_density (objects L q) = charge_density (heap sys q)"
    and ve: "\<And>q. velocity (objects L q) = velocity (heap sys q)"
    by (simp_all add: same_shapes_def)
  have wc: "wall_charge (objects L) c pos = wall_charge (heap sys) c pos" for c pos
    by (intro ext wall_charge_cong) (simp_all add: cd ch)
  have best: "scan_cpu (objects L) ?reg ?pos 0 (dist_init, boundary_number L) = gpu_best sys (z, y, x)"
    if "?reg \<noteq> []"
  proof -
    have "scan_cpu (objects L) ?reg ?pos 0 (dist_init, boundary_number L) =
          scan_cpu (heap sys) ?reg ?pos 0 (dist_init, boundary_number L)"
      by (rule scan_cpu_cong_store) (simp add: cd)
    with scan_cpu_first [OF that] show ?thesis
      by (simp add: gpu_best_def)
  qed
  have nonneg: "0 \<le> snd (gpu_best sys (z, y, x))" if "?reg \<noteq> []"
    using scan_cpu_nearest [OF that, of "heap sys" ?pos "(dist_init, - 1)"]
    by (simp add: gpu_best_def nearest_first_def)
  have charged: "gpu_charged sys (z, y, x) \<longleftrightarrow>
      (\<exists>q \<in> set ?reg. fst (calc_dist (heap sys q) ?pos) \<le> 0 \<and> charge_density (heap sys q) \<noteq> 0)"
    by (simp add: gpu_charged_def list_ex_iff)
  show ?thesis
  proof (cases "?reg = []")
    case True
    then show ?thesis
      using J by (simp add: gpu_node_def Let_def gpu_owned_def gpu_charged_def node_charge_def)
  next
    case False
    show ?thesis
      using R J False best [OF False] nonneg [OF False]
      by (simp add: gpu_node_def Let_def gpu_owned_def charged node_charge_def
          scan_gpu_best_proj scan_gpu_frame scan_gpu_members scan_gpu_net_charge
          scan_gpu_node_wallcharge scan_gpu_node_charged cd ch ve wc gpu_index_def ek_index_def
          same_shapes_def) blast
  qed
qed

lemma padded_snoc:
  "(resize ((int (length xs) + 1) * sizeof_int) (padded xs))[nat (int (length xs)) := v] =
   padded (xs @ [v])"
proof -
  have len: "length (padded xs) = 4 * length xs"
    by (simp add: padded_def)
  have n: "nat ((int (length xs) + 1) * sizeof_int) = 4 * length xs + 4"
    by (simp add: sizeof_int_def nat_add_distrib nat_mult_distrib)
  have "resize ((int (length xs) + 1) * sizeof_int) (padded xs) = padded xs @ replicate 4 0"
    by (simp add: resize_def n len)
  also have "\<dots> = xs @ 0 # replicate (3 * length xs + 3) 0"
    by (simp add: padded_def replicate_add [symmetric] del: replicate_Suc replicate_add)
       (simp add: replicate_app_Cons_same flip: replicate_Suc)
  finally show ?thesis
    by (simp add: padded_def list_update_append)
qed

lemma gpu_inv_init:
  assumes "number_of_boundnodes L0 = 0" "host_boundary_node_list L0 = []"
    "host_boundary_index_list L0 = []" "same_shapes (objects L0) (heap sys)"
  shows "gpu_inv sys ws L0 [] L0"
  using assms by (simp add: gpu_inv_def padded_def apply_writes_def)

lemma gpu_inv_step:
  assumes inv: "gpu_inv sys ws L0 qs L"
    and R: "ek_initialized sys \<and> ws \<noteq> - 1 \<and> gpu_charged sys (z, y, x) \<longrightarrow>
            0 \<le> ek_index (ek_parameters sys) (z, y, x) \<and>
            nat (ek_index (ek_parameters sys) (z, y, x)) < length (host_wallcharge_species_density L0)"
  shows "\<exists>L'. gpu_node sys ws z y x L = Inr L' \<and> gpu_inv sys ws L0 (qs @ [(z, y, x)]) L'"
proof -
  let ?own = "filter (gpu_owned sys) qs"
  from inv have J: "same_shapes (objects L) (heap sys)"
    and nb: "number_of_boundnodes L = int (length ?own)"
    and nl: "host_boundary_node_list L = padded (map (gpu_index (lbpar_gpu sys)) ?own)"
    and il: "host_boundary_index_list L = padded (map (\<lambda>p. snd (gpu_best sys p) + 1) ?own)"
    and nc: "\<And>r. net_charge (objects L r) = net_charge (objects L0 r) +
          (if ek_initialized sys
           then real (count_list (lbboundaries sys) r) *
                sum_list (map (\<lambda>p. wall_charge (heap sys) (ek_agrid (ek_parameters sys))
                                      (gpu_pos_of sys p) r) qs)
           else 0)"
    and wb: "host_wallcharge_species_density L =
       (if ek_initialized sys \<and> ws \<noteq> - 1
        then apply_writes (\<lambda>p. nat (ek_index (ek_parameters sys) p))
               (\<lambda>p v. node_charge sys p / ek_valency (ek_parameters sys) (nat ws))
               (filter (gpu_charged sys) qs) (host_wallcharge_species_density L0)
        else host_wallcharge_species_density L0)"
    by (simp_all add: gpu_inv_def)
  have len: "length (host_wallcharge_species_density L) = length (host_wallcharge_species_density L0)"
    by (simp add: wb)
  from R len have R': "ek_initialized sys \<and> ws \<noteq> - 1 \<and> gpu_charged sys (z, y, x) \<longrightarrow>
            0 \<le> ek_index (ek_parameters sys) (z, y, x) \<and>
            nat (ek_index (ek_parameters sys) (z, y, x)) < length (host_wallcharge_species_density L)"
    by simp
  from gpu_node_result [OF J R'] obtain L' where run: "gpu_node sys ws z y x L = Inr L'"
    and nb': "number_of_boundnodes L' =
      number_of_boundnodes L + (if gpu_owned sys (z, y, x) then 1 else 0)"
    and nl': "host_boundary_node_list L' =
      (if gpu_owned sys (z, y, x)
       then (resize ((number_of_boundnodes L + 1) * sizeof_int) (host_boundary_node_list L))
              [nat (number_of_boundnodes L) := gpu_index (lbpar_gpu sys) (z, y, x)]
       else host_boundary_node_list L)"
    and il': "host_boundary_index_list L' =
      (if gpu_owned sys (z, y, x)
       then (resize ((number_of_boundnodes L + 1) * sizeof_int) (host_boundary_index_list L))
              [nat (number_of_boundnodes L) := snd (gpu_best sys (z, y, x)) + 1]
       else host_boundary_index_list L)"
    and J': "same_shapes (objects L') (heap sys)"
    and nc': "\<And>r. net_charge (objects L' r) = net_charge (objects L r) +
          (if ek_initialized sys
           then real (count_list (lbboundaries sys) r) *
                wall_charge (heap sys) (ek_agrid (ek_parameters sys)) (gpu_pos sys x y z) r
           else 0)"
    and wb': "host_wallcharge_species_density L' =
      (if ek_initialized sys \<and> ws \<noteq> - 1 \<and> gpu_charged sys (z, y, x)
       then (host_wallcharge_species_density L)
              [nat (ek_index (ek_parameters sys) (z, y, x)) :=
                 node_charge sys (z, y, x) / ek_valency (ek_parameters sys) (nat ws)]
       else host_wallcharge_species_density L)"
    and lp': "lbpar_number_of_boundnodes L' = number_of_boundnodes L'"
    and ep': "ekpar_number_of_boundary_nodes L' =
      (if ek_initialized sys then number_of_boundnodes L' else ekpar_number_of_boundary_nodes L)"
    by blast
  have c1: "number_of_boundnodes L' = int (length (filter (gpu_owned sys) (qs @ [(z, y, x)])))"
    by (simp add: nb' nb)
  have c2: "host_boundary_node_list L' =
      padded (map (gpu_index (lbpar_gpu sys)) (filter (gpu_owned sys) (qs @ [(z, y, x)])))"
    using padded_snoc [of "map (gpu_index (lbpar_gpu sys)) ?own"]
    by (simp add: nl' nl nb)
  have c3: "host_boundary_index_list L' =
      padded (map (\<lambda>p. snd (gpu_best sys p) + 1) (filter (gpu_owned sys) (qs @ [(z, y, x)])))"
    using padded_snoc [of "map (\<lambda>p. snd (gpu_best sys p) + 1) ?own"]
    by (simp add: il' il nb)
  have c5: "net_charge (objects L' r) = net_charge (objects L0 r) +
          (if ek_initialized sys
           then real (count_list (lbboundaries sys) r) *
                sum_list (map (\<lambda>p. wall_charge (heap sys) (ek_agrid (ek_parameters sys))
                                      (gpu_pos_of sys p) r) (qs @ [(z, y, x)]))
           else 0)" for r
    by (simp add: nc' nc gpu_pos_of_def algebra_simps)
  have c6: "host_wallcharge_species_density L' =
       (if ek_initialized sys \<and> ws \<noteq> - 1
        then apply_writes (\<lambda>p. nat (ek_index (ek_parameters sys) p))
               (\<lambda>p v. node_charge sys p / ek_valency (ek_parameters sys) (nat ws))
               (filter (gpu_charged sys) (qs @ [(z, y, x)])) (host_wallcharge_species_density L0)
        else host_wallcharge_species_density L0)"
    by (auto simp: wb' wb apply_writes_snoc)
  have c8: "ekpar_number_of_boundary_nodes L' =
       (if qs @ [(z, y, x)] = [] \<or> \<not> ek_initialized sys then ekpar_number_of_boundary_nodes L0
        else number_of_boundnodes L')"
    using inv by (simp add: ep' gpu_inv_def)
  from run c1 c2 c3 J' c5 c6 lp' c8 show ?thesis
    unfolding gpu_inv_def [of sys ws L0 "qs @ [(z, y, x)]"] by simp
qed

lemma gpu_sweep:
  assumes "number_of_boundnodes L0 = 0" "host_boundary_node_list L0 = []"
    "host_boundary_index_list L0 = []" "same_shapes (objects L0) (heap sys)"
    and "\<forall>p \<in> set ps. ek_initialized sys \<and> ws \<noteq> - 1 \<and> gpu_charged sys p \<longrightarrow>
            0 \<le> ek_index (ek_parameters sys) p \<and>
            nat (ek_index (ek_parameters sys) p) < length (host_wallcharge_species_density L0)"
  shows "\<exists>L. for_each ps (\<lambda>(z, y, x). gpu_node sys ws z y x) L0 = Inr L \<and> gpu_inv sys ws L0 ps L"
  using assms(5)
proof (induction ps rule: rev_induct)
  case Nil
  from gpu_inv_init [OF assms(1-4)] show ?case by simp
next
  case (snoc q qs)
  then obtain L where run: "for_each qs (\<lambda>(z, y, x). gpu_node sys ws z y x) L0 = Inr L"
    and inv: "gpu_inv sys ws L0 qs L" by auto
  obtain z y x where q: "q = (z, y, x)" by (cases q)
  from snoc.prems q have "ek_initialized sys \<and> ws \<noteq> - 1 \<and> gpu_charged sys (z, y, x) \<longrightarrow>
            0 \<le> ek_index (ek_parameters sys) (z, y, x) \<and>
            nat (ek_index (ek_parameters sys) (z, y, x)) < length (host_wallcharge_species_density L0)"
    by simp
  from gpu_inv_step [OF inv this] show ?case
    by (auto simp: for_each_append run q)
qed

lemma reset_net_charges_apply:
  "reset_net_charges ps h q = (if q \<in> set ps then set_net_charge 0 (h q) else h q)"
  by (induction ps arbitrary: h) (auto simp: set_net_charge_def)

lemma same_shapes_reset: "same_shapes (reset_net_charges ps h) h"
  by (simp add: same_shapes_def reset_net_charges_apply set_net_charge_def)

lemma gpu_nodes_range:
  assumes "(z, y, x) \<in> set (gpu_nodes g)"
  shows "0 \<le> x \<and> x < gpu_dim_x g \<and> 0 \<le> y \<and> y < gpu_dim_y g \<and> 0 \<le> z \<and> z < gpu_dim_z g"
  using assms by (auto simp: gpu_nodes_def)

lemma ek_index_range:
  assumes "wf_ek sys" "ek_initialized sys" "p \<in> set (gpu_nodes (lbpar_gpu sys))"
  shows "0 \<le> ek_index (ek_parameters sys) p \<and>
         nat (ek_index (ek_parameters sys) p) < length (gpu_buffer0 sys)"
proof -
  obtain z y x where p: "p = (z, y, x)" by (cases p)
  let ?g = "lbpar_gpu sys"
  from gpu_nodes_range assms(3) p
  have r: "0 \<le> x" "x < gpu_dim_x ?g" "0 \<le> y" "y < gpu_dim_y ?g" "0 \<le> z" "z < gpu_dim_z ?g"
    by blast+
  from assms have e: "ek_dim_x (ek_parameters sys) = gpu_dim_x ?g"
    "ek_dim_y (ek_parameters sys) = gpu_dim_y ?g"
    "ek_number_of_nodes (ek_parameters sys) = gpu_dim_x ?g * gpu_dim_y ?g * gpu_dim_z ?g"
    by (simp_all add: wf_ek_def)
  have eq: "ek_index (ek_parameters sys) p = x + gpu_dim_x ?g * (y + gpu_dim_y ?g * z)"
    by (simp add: ek_index_def p e algebra_simps)
  from linear_index_bounds [OF r] assms(2) show ?thesis
    by (simp add: eq gpu_buffer0_def e)
qed

lemma gpu_pass_gen:
  assumes "gpu_ws sys \<noteq> - 1 \<longrightarrow> wf_ek sys"
  shows "\<exists>L. lb_init_boundaries_gpu sys = Inr (gpu_final sys L) \<and>
             gpu_inv sys (gpu_ws sys) (gpu_L0 sys) (gpu_nodes (lbpar_gpu sys)) L"
proof -
  have cd: "list_ex (\<lambda>b. charge_density (reset_net_charges (lbboundaries sys) (heap sys) b) \<noteq> 0)
              (lbboundaries sys) =
            list_ex (\<lambda>b. charge_density (heap sys b) \<noteq> 0) (lbboundaries sys)"
    by (simp add: reset_net_charges_apply set_net_charge_def list_ex_iff)
  have range: "\<forall>p \<in> set (gpu_nodes (lbpar_gpu sys)).
      ek_initialized sys \<and> gpu_ws sys \<noteq> - 1 \<and> gpu_charged sys p \<longrightarrow>
        0 \<le> ek_index (ek_parameters sys) p \<and>
        nat (ek_index (ek_parameters sys) p) < length (host_wallcharge_species_density (gpu_L0 sys))"
    using ek_index_range [of sys] assms by (simp add: gpu_L0_def)
  have "number_of_boundnodes (gpu_L0 sys) = 0" "host_boundary_node_list (gpu_L0 sys) = []"
    "host_boundary_index_list (gpu_L0 sys) = []" "same_shapes (objects (gpu_L0 sys)) (heap sys)"
    by (simp_all add: gpu_L0_def same_shapes_reset)
  from gpu_sweep [OF this range] obtain L where
    run: "for_each (gpu_nodes (lbpar_gpu sys)) (\<lambda>(z, y, x). gpu_node sys (gpu_ws sys) z y x) (gpu_L0 sys) = Inr L"
    and inv: "gpu_inv sys (gpu_ws sys) (gpu_L0 sys) (gpu_nodes (lbpar_gpu sys)) L"
    by blast
  from run have "for_each [0 .. gpu_dim_z (lbpar_gpu sys) - 1] (\<lambda>z.
                for_each [0 .. gpu_dim_y (lbpar_gpu sys) - 1] (\<lambda>y.
                  for_each [0 .. gpu_dim_x (lbpar_gpu sys) - 1] (\<lambda>x.
                    gpu_node sys (gpu_ws sys) z y x))) (gpu_L0 sys) = Inr L"
    by (simp add: loops_product gpu_nodes_def)
  then have "lb_init_boundaries_gpu sys = Inr (gpu_final sys L)"
    unfolding lb_init_boundaries_gpu_def Let_def cd
    by (simp add: gpu_final_def gpu_L0_def gpu_ws_def gpu_buffer0_def gpu_errors_def cong: if_cong)
  with inv show ?thesis by blast
qed

lemma gpu_pass:
  assumes "wf_ek sys"
  shows "\<exists>L. lb_init_boundaries_gpu sys = Inr (gpu_final sys L) \<and>
             gpu_inv sys (gpu_ws sys) (gpu_L0 sys) (gpu_nodes (lbpar_gpu sys)) L"
  using gpu_pass_gen [of sys] assms by simp

section \<open>The pass as a whole\<close>

lemma pass_frame:
  assumes "lb_init_boundaries sys = Inr s'"
  shows "lbboundaries s' = lbboundaries sys" "lattice_switch s' = lattice_switch sys"
    "this_node s' = this_node sys" "lblattice s' = lblattice sys"
    "ek_initialized s' = ek_initialized sys"
  using assms
  by (auto simp: lb_init_boundaries_def lb_init_boundaries_cpu_def lb_init_boundaries_gpu_def
      Let_def split: sum.splits if_splits)

lemma pass_total:
  assumes "wf_system sys"
  shows "\<exists>s'. lb_init_boundaries sys = Inr s' \<and> wf_system s'"
proof (cases "lattice_switch sys")
  case NONE
  with assms show ?thesis by (simp add: lb_init_boundaries_def)
next
  case CPU
  with assms have wf: "wf_lattice sys" by (simp add: wf_system_def)
  show ?thesis
  proof (cases "halo_grid_volume (lblattice sys) = 0")
    case True
    with CPU assms cpu_pass_empty [OF True] show ?thesis
      by (simp add: lb_init_boundaries_def)
  next
    case False
    from wf have "wf_lattice (sys\<lparr>lbfields := cpu_result sys\<rparr>)"
      by (simp add: wf_lattice_def cpu_result_def)
    with CPU cpu_pass_regular [OF wf False] show ?thesis
      by (simp add: lb_init_boundaries_def wf_system_def)
  qed
next
  case GPU
  with assms have wf: "wf_ek sys" by (simp add: wf_system_def)
  from gpu_pass [OF wf] obtain L where run: "lb_init_boundaries_gpu sys = Inr (gpu_final sys L)"
    by blast
  from wf have "wf_ek (gpu_final sys L)"
    by (simp add: wf_ek_def gpu_final_def)
  with GPU run assms show ?thesis
    by (simp add: lb_init_boundaries_def wf_system_def gpu_final_def)
qed

lemma wf_system_registry [simp]:
  "wf_system (sys\<lparr>lbboundaries := r\<rparr>) = wf_system sys"
  by (simp add: wf_system_def wf_lattice_def wf_ek_def)

section \<open>The force query\<close>

lemma find_index_None: "find_index b xs = None \<longleftrightarrow> b \<notin> set xs"
  by (induction xs) (auto split: option.splits)

lemma find_index_Some:
  "find_index b xs = Some k \<Longrightarrow> k < length xs \<and> xs ! k = b \<and> (\<forall>j < k. xs ! j \<noteq> b)"
proof (induction xs arbitrary: k)
  case Nil
  then show ?case by simp
next
  case (Cons x xs)
  show ?case
  proof (cases "x = b")
    case True
    with Cons.prems show ?thesis by simp
  next
    case False
    with Cons.prems obtain k' where k': "find_index b xs = Some k'" "k = Suc k'"
      by (auto split: option.splits)
    from Cons.IH [OF k'(1)] False k'(2) show ?thesis
      by (auto simp: nth_Cons split: nat.splits)
  qed
qed

text \<open>
  Claim C8. The force query fails, with the error of an unregistered boundary, exactly
  when the pointer is not in the registry. When it is, the query returns the three
  entries of the force array of the active backend at the slot of the first registry
  entry holding the pointer (zeros when no backend is active).
\<close>

theorem get_force_fails_iff_unregistered:
  "(lbboundary_get_force gf cf sys b = Inl unregistered_boundary \<longleftrightarrow> b \<notin> set (lbboundaries sys)) \<and>
   ((\<exists>e. lbboundary_get_force gf cf sys b = Inl e) \<longleftrightarrow> b \<notin> set (lbboundaries sys)) \<and>
   (b \<in> set (lbboundaries sys) \<longrightarrow>
      (\<exists>k < length (lbboundaries sys).
         lbboundaries sys ! k = b \<and> (\<forall>j < k. lbboundaries sys ! j \<noteq> b) \<and>
         lbboundary_get_force gf cf sys b =
           Inr (if lattice_switch sys = GPU then (gf (3 * k), gf (3 * k + 1), gf (3 * k + 2))
                else if lattice_switch sys = CPU then (cf (3 * k), cf (3 * k + 1), cf (3 * k + 2))
                else (0, 0, 0))))"
proof (cases "find_index b (lbboundaries sys)")
  case None
  then have "b \<notin> set (lbboundaries sys)" by (simp add: find_index_None)
  with None show ?thesis by (simp add: lbboundary_get_force_def)
next
  case (Some k)
  from find_index_Some [OF Some]
  have k: "k < length (lbboundaries sys)" "lbboundaries sys ! k = b"
    "\<forall>j < k. lbboundaries sys ! j \<noteq> b" by simp_all
  then have mem: "b \<in> set (lbboundaries sys)" by (metis nth_mem)
  have res: "lbboundary_get_force gf cf sys b =
           Inr (if lattice_switch sys = GPU then (gf (3 * k), gf (3 * k + 1), gf (3 * k + 2))
                else if lattice_switch sys = CPU then (cf (3 * k), cf (3 * k + 1), cf (3 * k + 2))
                else (0, 0, 0))"
    using k(1) by (simp add: lbboundary_get_force_def Some Let_def)
  with k mem show ?thesis by auto
qed

theorem get_force_fails_iff_unregistered_witness:
  "0 \<in> set (lbboundaries ex_cpu) \<and>
   lbboundary_get_force (\<lambda>i. 0) (\<lambda>i. real i + 1) ex_cpu 0 = Inr (1, 2, 3) \<and>
   lbboundary_get_force (\<lambda>i. 0) (\<lambda>i. real i + 1) ex_cpu 1 = Inl unregistered_boundary"
  using get_force_fails_iff_unregistered [of "\<lambda>i. 0" "\<lambda>i. real i + 1" ex_cpu 0]
    get_force_fails_iff_unregistered [of "\<lambda>i. 0" "\<lambda>i. real i + 1" ex_cpu 1]
  by (simp add: ex_cpu_def)

section \<open>The registry\<close>

lemma add_result:
  assumes "wf_system sys"
  shows "\<exists>s'. add b sys = Inr s' \<and> wf_system s' \<and> lbboundaries s' = lbboundaries sys @ [b]"
proof -
  from assms have "wf_system (sys\<lparr>lbboundaries := lbboundaries sys @ [b]\<rparr>)" by simp
  from pass_total [OF this] obtain s' where
    run: "lb_init_boundaries (sys\<lparr>lbboundaries := lbboundaries sys @ [b]\<rparr>) = Inr s'"
    and wf: "wf_system s'" by blast
  from pass_frame(1) [OF run] run wf show ?thesis
    by (simp add: add_def on_lbboundary_change_def)
qed

lemma remove_result:
  assumes "wf_system sys"
  shows "\<exists>s'. remove b sys = Inr s' \<and> wf_system s' \<and>
              lbboundaries s' = filter (\<lambda>lbb. lbb \<noteq> b) (lbboundaries sys)"
proof -
  from assms have "wf_system (sys\<lparr>lbboundaries := filter (\<lambda>lbb. lbb \<noteq> b) (lbboundaries sys)\<rparr>)"
    by simp
  from pass_total [OF this] obtain s' where
    run: "lb_init_boundaries (sys\<lparr>lbboundaries := filter (\<lambda>lbb. lbb \<noteq> b) (lbboundaries sys)\<rparr>) = Inr s'"
    and wf: "wf_system s'" by blast
  from pass_frame(1) [OF run] run wf show ?thesis
    by (simp add: remove_def on_lbboundary_change_def)
qed

lemma filter_renumber:
  assumes "i < length xs" "P (xs ! i)"
  shows "length (filter P (take i xs)) < length (filter P xs) \<and>
         filter P xs ! length (filter P (take i xs)) = xs ! i"
proof -
  have "xs = take i xs @ xs ! i # drop (Suc i) xs"
    using assms(1) by (simp add: id_take_nth_drop)
  then have "filter P xs = filter P (take i xs) @ xs ! i # filter P (drop (Suc i) xs)"
    using assms(2) by (metis filter.simps(2) filter_append)
  then show ?thesis by (simp add: nth_append)
qed

text \<open>
  Claim C10. \<open>add\<close> has no duplicate check: on a well-formed system it succeeds and the
  registry grows by exactly one entry at the end, so adding the same object twice puts it
  at two indices. A following \<open>remove\<close> of the object erases every entry that holds it.
\<close>

theorem add_twice_remove_all:
  assumes "wf_system sys"
  shows "\<exists>s1 s2 s3.
           add b sys = Inr s1 \<and> lbboundaries s1 = lbboundaries sys @ [b] \<and>
           add b s1 = Inr s2 \<and> lbboundaries s2 = lbboundaries sys @ [b, b] \<and>
           lbboundaries s2 ! length (lbboundaries sys) = b \<and>
           lbboundaries s2 ! (length (lbboundaries sys) + 1) = b \<and>
           remove b s2 = Inr s3 \<and> b \<notin> set (lbboundaries s3) \<and>
           lbboundaries s3 = filter (\<lambda>lbb. lbb \<noteq> b) (lbboundaries sys)"
proof -
  from add_result [OF assms] obtain s1 where
    s1: "add b sys = Inr s1" "wf_system s1" "lbboundaries s1 = lbboundaries sys @ [b]" by blast
  from add_result [OF s1(2)] obtain s2 where
    s2: "add b s1 = Inr s2" "wf_system s2" "lbboundaries s2 = lbboundaries s1 @ [b]" by blast
  from remove_result [OF s2(2)] obtain s3 where
    s3: "remove b s2 = Inr s3" "lbboundaries s3 = filter (\<lambda>lbb. lbb \<noteq> b) (lbboundaries s2)"
    by blast
  from s1 s2 s3 show ?thesis
    by (simp add: nth_append)
qed

theorem add_twice_remove_all_witness:
  "wf_system ex_cpu \<and>
   (\<exists>s1 s2 s3.
      add 1 ex_cpu = Inr s1 \<and> add 1 s1 = Inr s2 \<and> lbboundaries s2 = [0, 1, 1] \<and>
      remove 1 s2 = Inr s3 \<and> lbboundaries s3 = [0])"
proof -
  have wf: "wf_system ex_cpu"
    by (simp add: wf_system_def wf_lattice_def ex_cpu_def Let_def)
  from add_twice_remove_all [OF wf, of 1] obtain s1 s2 s3 where
    "add 1 ex_cpu = Inr s1" "add 1 s1 = Inr s2" "lbboundaries s2 = lbboundaries ex_cpu @ [1, 1]"
    "remove 1 s2 = Inr s3" "lbboundaries s3 = filter (\<lambda>lbb. lbb \<noteq> 1) (lbboundaries ex_cpu)"
    by blast
  then have "add 1 ex_cpu = Inr s1 \<and> add 1 s1 = Inr s2 \<and> lbboundaries s2 = [0, 1, 1] \<and>
      remove 1 s2 = Inr s3 \<and> lbboundaries s3 = [0]"
    by (simp add: ex_cpu_def)
  with wf show ?thesis by blast
qed

text \<open>
  Claim C6, as the code has it. On a well-formed system \<open>remove\<close> succeeds; it erases
  every registry entry equal (by identity) to the argument, keeps the other entries
  in their order, leaves the registry as it is when the argument is absent, and hands the
  system with the new registry to the re-classification. An entry that stays moves down by
  the number of erased entries before it.
\<close>

theorem remove_erases_all_and_renumbers:
  assumes "wf_system sys"
  shows "\<exists>s'. remove b sys = Inr s' \<and>
           lb_init_boundaries (sys\<lparr>lbboundaries := lbboundaries s'\<rparr>) = Inr s' \<and>
           lbboundaries s' = filter (\<lambda>lbb. lbb \<noteq> b) (lbboundaries sys) \<and>
           b \<notin> set (lbboundaries s') \<and>
           (b \<notin> set (lbboundaries sys) \<longrightarrow> lbboundaries s' = lbboundaries sys) \<and>
           (\<forall>i < length (lbboundaries sys). lbboundaries sys ! i \<noteq> b \<longrightarrow>
              lbboundaries s' ! (i - count_list (take i (lbboundaries sys)) b) = lbboundaries sys ! i)"
proof -
  let ?reg = "lbboundaries sys"
  from remove_result [OF assms] obtain s' where
    run: "remove b sys = Inr s'" and reg: "lbboundaries s' = filter (\<lambda>lbb. lbb \<noteq> b) ?reg"
    by blast
  have cnt: "length (filter (\<lambda>lbb. lbb \<noteq> b) xs) = length xs - count_list xs b" for xs
    by (induction xs) (auto simp: Suc_diff_le count_le_length)
  have absent: "b \<notin> set ?reg \<longrightarrow> filter (\<lambda>lbb. lbb \<noteq> b) ?reg = ?reg"
    by (auto simp: filter_id_conv)
  have renum: "filter (\<lambda>lbb. lbb \<noteq> b) ?reg ! (i - count_list (take i ?reg) b) = ?reg ! i"
    if "i < length ?reg" "?reg ! i \<noteq> b" for i
    using filter_renumber [of i ?reg "\<lambda>lbb. lbb \<noteq> b"] that cnt [of "take i ?reg"]
    by (simp add: min_absorb2)
  from run reg absent renum show ?thesis
    by (simp add: remove_def on_lbboundary_change_def)
qed

theorem remove_erases_all_and_renumbers_witness:
  "wf_system ex_dup \<and> (\<exists>s'. remove 0 ex_dup = Inr s' \<and> lbboundaries s' = [1, 2])"
proof -
  have wf: "wf_system ex_dup"
    by (simp add: wf_system_def wf_lattice_def ex_dup_def ex_cpu_def Let_def)
  from remove_erases_all_and_renumbers [OF wf, of 0] obtain s' where
    "remove 0 ex_dup = Inr s'" "lbboundaries s' = filter (\<lambda>lbb. lbb \<noteq> 0) (lbboundaries ex_dup)"
    by blast
  then have "remove 0 ex_dup = Inr s' \<and> lbboundaries s' = [1, 2]"
    by (simp add: ex_dup_def ex_cpu_def)
  with wf show ?thesis by blast
qed

theorem remove_first_only_counterexample:
  "outcome lbboundaries (remove 0 ex_dup) = Some [1, 2] \<and>
   remove1 0 (lbboundaries ex_dup) = [1, 0, 2]"
proof -
  have wf: "wf_system ex_dup"
    by (simp add: wf_system_def wf_lattice_def ex_dup_def ex_cpu_def Let_def)
  from remove_result [OF wf, of 0] obtain s' where
    "remove 0 ex_dup = Inr s'" "lbboundaries s' = filter (\<lambda>lbb. lbb \<noteq> 0) (lbboundaries ex_dup)"
    by blast
  then show ?thesis
    by (simp add: outcome_def ex_dup_def ex_cpu_def)
qed

section \<open>Classification of the nodes\<close>

lemma cpu_index_distinct:
  assumes "wf_lattice sys" "halo_grid_volume (lblattice sys) \<noteq> 0"
  shows "distinct (map (cpu_index (lblattice sys)) (halo_nodes (lblattice sys)))"
proof -
  let ?lat = "lblattice sys"
  let ?gx = "fst (grid ?lat)" and ?gy = "fst (snd (grid ?lat))" and ?gz = "snd (snd (grid ?lat))"
  from assms have hg: "halo_grid ?lat = (?gx + 2, ?gy + 2, ?gz + 2)"
    by (simp add: wf_lattice_def Let_def)
  have d: "distinct (halo_nodes ?lat)"
    by (simp add: halo_nodes_def distinct_product)
  have "inj_on (cpu_index ?lat) (set (halo_nodes ?lat))"
  proof (rule inj_onI)
    fix p q assume p: "p \<in> set (halo_nodes ?lat)" and q: "q \<in> set (halo_nodes ?lat)"
      and eq: "cpu_index ?lat p = cpu_index ?lat q"
    obtain z y x where pz: "p = (z, y, x)" by (cases p)
    obtain z' y' x' where qz: "q = (z', y', x')" by (cases q)
    from halo_nodes_range p pz
    have r: "0 \<le> x" "x < ?gx + 2" "0 \<le> y" "y < ?gy + 2" "0 \<le> z" "z < ?gz + 2" by blast+
    from halo_nodes_range q qz
    have r': "0 \<le> x'" "x' < ?gx + 2" "0 \<le> y'" "y' < ?gy + 2" "0 \<le> z'" "z' < ?gz + 2" by blast+
    from linear_index_bounds(1) [OF r] linear_index_bounds(1) [OF r'] eq
    have "x + (?gx + 2) * (y + (?gy + 2) * z) = x' + (?gx + 2) * (y' + (?gy + 2) * z')"
      by (simp add: cpu_index_def pz qz get_linear_index_def hg)
    from linear_index_inj [OF r(1,2) r'(1,2) r(3,4) r'(3,4) this] show "p = q"
      by (simp add: pz qz)
  qed
  with d show ?thesis by (simp add: distinct_map)
qed

lemma cpu_index_in_range:
  assumes "wf_lattice sys" "halo_grid_volume (lblattice sys) \<noteq> 0"
    and "p \<in> set (halo_nodes (lblattice sys))"
  shows "cpu_index (lblattice sys) p < length (lbfields sys)"
proof -
  let ?lat = "lblattice sys"
  let ?gx = "fst (grid ?lat)" and ?gy = "fst (snd (grid ?lat))" and ?gz = "snd (snd (grid ?lat))"
  from assms have hg: "halo_grid ?lat = (?gx + 2, ?gy + 2, ?gz + 2)"
    and len: "int (length (lbfields sys)) = (?gx + 2) * (?gy + 2) * (?gz + 2)"
    by (simp_all add: wf_lattice_def Let_def)
  obtain z y x where pz: "p = (z, y, x)" by (cases p)
  from halo_nodes_range assms(3) pz
  have r: "0 \<le> x" "x < ?gx + 2" "0 \<le> y" "y < ?gy + 2" "0 \<le> z" "z < ?gz + 2" by blast+
  from linear_index_bounds [OF r] len show ?thesis
    by (simp add: cpu_index_def pz get_linear_index_def hg)
qed

lemma cpu_result_length [simp]: "length (cpu_result sys) = length (lbfields sys)"
  by (simp add: cpu_result_def)

lemma cpu_result_node:
  assumes "wf_lattice sys" "halo_grid_volume (lblattice sys) \<noteq> 0"
    and "p \<in> set (halo_nodes (lblattice sys))"
  shows "cpu_result sys ! cpu_index (lblattice sys) p =
           cpu_classify sys p ((lbfields sys ! cpu_index (lblattice sys) p)\<lparr>boundary := 0\<rparr>)"
  using apply_writes_hit [OF cpu_index_distinct [OF assms(1,2)] assms(3),
      of "map (\<lambda>node. node\<lparr>boundary := 0\<rparr>) (lbfields sys)" "cpu_classify sys"]
    cpu_index_in_range [OF assms]
  by (simp add: cpu_result_def)

lemma cpu_result_other:
  assumes "i \<notin> cpu_index (lblattice sys) ` set (halo_nodes (lblattice sys))" "i < length (lbfields sys)"
  shows "cpu_result sys ! i = (lbfields sys ! i)\<lparr>boundary := 0\<rparr>"
  using assms by (simp add: cpu_result_def apply_writes_other)

lemma cpu_best_index:
  assumes "lbboundaries sys \<noteq> []"
  shows "0 \<le> snd (cpu_best sys p)"
proof -
  obtain z y x where p: "p = (z, y, x)" by (cases p)
  from scan_cpu_nearest [OF assms, of "heap sys" "cpu_pos sys x y z" "(dist_init, - 1)"]
  show ?thesis by (simp add: cpu_best_def p nearest_first_def)
qed

lemma apply_writes_reset:
  "apply_writes idx (\<lambda>p node. node\<lparr>boundary := 0\<rparr>) ps (map (\<lambda>node. node\<lparr>boundary := 0\<rparr>) fs) =
   map (\<lambda>node. node\<lparr>boundary := 0\<rparr>) fs"
proof (induction ps rule: rev_induct)
  case Nil
  show ?case by (simp add: apply_writes_def)
next
  case (snoc q qs)
  show ?case
  proof (cases "idx q < length fs")
    case True
    then have "(map (\<lambda>node. node\<lparr>boundary := 0\<rparr>) fs)
                 [idx q := (map (\<lambda>node. node\<lparr>boundary := 0\<rparr>) fs ! idx q)\<lparr>boundary := 0\<rparr>] =
               map (\<lambda>node. node\<lparr>boundary := 0\<rparr>) fs"
      by (simp add: list_update_same_conv)
    then show ?thesis
      unfolding apply_writes_snoc snoc.IH .
  next
    case False
    then have "length (map (\<lambda>node. node\<lparr>boundary := 0\<rparr>) fs) \<le> idx q" by simp
    then show ?thesis
      unfolding apply_writes_snoc snoc.IH by (rule list_update_beyond)
  qed
qed

lemma cpu_result_empty_registry:
  assumes "lbboundaries sys = []"
  shows "cpu_result sys = map (\<lambda>node. node\<lparr>boundary := 0\<rparr>) (lbfields sys)"
proof -
  have "cpu_classify sys = (\<lambda>p node. node\<lparr>boundary := 0\<rparr>)"
    using assms by (intro ext) (simp add: cpu_classify_def)
  then show ?thesis
    by (simp add: cpu_result_def apply_writes_reset)
qed

lemma take_padded [simp]: "take (length xs) (padded xs) = xs"
  by (simp add: padded_def)

lemma boundary_velocity_empty: "boundary_velocity h [] = [0, 0, 0]"
  by (simp add: boundary_velocity_def numeral_3_eq_3)

text \<open>
  Claim C2. CPU branch: after the pass every node of the halo grid carries the flag
  \<open>best_index + 1\<close> if the registry is not empty and the smallest distance found by the scan
  at the node is \<open>\<le> 0\<close>, and the flag \<open>0\<close> otherwise; the flag is not \<open>0\<close> exactly in the first
  case. GPU branch (coordinating process): the node list handed to the device holds, in
  sweep order, the linear indices of exactly the nodes with that property, and the index
  list holds \<open>best_index + 1\<close> for each of them.
\<close>

theorem node_owned_iff_best_distance_nonpositive:
  assumes "wf_system sys"
  shows "(lattice_switch sys = CPU \<and> halo_grid_volume (lblattice sys) \<noteq> 0 \<longrightarrow>
           (\<exists>s'. lb_init_boundaries sys = Inr s' \<and>
              (\<forall>p \<in> set (halo_nodes (lblattice sys)).
                 boundary (lbfields s' ! cpu_index (lblattice sys) p) =
                   (if fst (cpu_best sys p) \<le> 0 \<and> lbboundaries sys \<noteq> []
                    then snd (cpu_best sys p) + 1 else 0) \<and>
                 (boundary (lbfields s' ! cpu_index (lblattice sys) p) \<noteq> 0 \<longleftrightarrow>
                    fst (cpu_best sys p) \<le> 0 \<and> lbboundaries sys \<noteq> [])))) \<and>
         (lattice_switch sys = GPU \<and> this_node sys = 0 \<longrightarrow>
           (\<exists>s' up. lb_init_boundaries sys = Inr s' \<and> lb_boundaries_gpu s' = Some up \<and>
              host_number_of_boundnodes up =
                int (length (filter (gpu_owned sys) (gpu_nodes (lbpar_gpu sys)))) \<and>
              take (nat (host_number_of_boundnodes up)) (host_boundary_nodes up) =
                map (gpu_index (lbpar_gpu sys)) (filter (gpu_owned sys) (gpu_nodes (lbpar_gpu sys))) \<and>
              take (nat (host_number_of_boundnodes up)) (host_boundary_indices up) =
                map (\<lambda>p. snd (gpu_best sys p) + 1)
                  (filter (gpu_owned sys) (gpu_nodes (lbpar_gpu sys)))))"
proof (intro conjI impI)
  assume a: "lattice_switch sys = CPU \<and> halo_grid_volume (lblattice sys) \<noteq> 0"
  with assms have wf: "wf_lattice sys" by (simp add: wf_system_def)
  from a have vol: "halo_grid_volume (lblattice sys) \<noteq> 0" by simp
  have run: "lb_init_boundaries sys = Inr (sys\<lparr>lbfields := cpu_result sys\<rparr>)"
    using a cpu_pass_regular [OF wf vol] by (simp add: lb_init_boundaries_def)
  have "boundary (cpu_result sys ! cpu_index (lblattice sys) p) =
          (if fst (cpu_best sys p) \<le> 0 \<and> lbboundaries sys \<noteq> []
           then snd (cpu_best sys p) + 1 else 0) \<and>
        (boundary (cpu_result sys ! cpu_index (lblattice sys) p) \<noteq> 0 \<longleftrightarrow>
           fst (cpu_best sys p) \<le> 0 \<and> lbboundaries sys \<noteq> [])"
    if "p \<in> set (halo_nodes (lblattice sys))" for p
    using cpu_best_index [of sys p]
    by (auto simp: cpu_result_node [OF wf vol that] cpu_classify_def)
  moreover have sel: "lbfields (sys\<lparr>lbfields := cpu_result sys\<rparr>) = cpu_result sys" by simp
  ultimately have "\<forall>p \<in> set (halo_nodes (lblattice sys)).
      boundary (lbfields (sys\<lparr>lbfields := cpu_result sys\<rparr>) ! cpu_index (lblattice sys) p) =
          (if fst (cpu_best sys p) \<le> 0 \<and> lbboundaries sys \<noteq> []
           then snd (cpu_best sys p) + 1 else 0) \<and>
      (boundary (lbfields (sys\<lparr>lbfields := cpu_result sys\<rparr>) ! cpu_index (lblattice sys) p) \<noteq> 0 \<longleftrightarrow>
           fst (cpu_best sys p) \<le> 0 \<and> lbboundaries sys \<noteq> [])"
    unfolding sel by blast
  with run show "\<exists>s'. lb_init_boundaries sys = Inr s' \<and>
              (\<forall>p \<in> set (halo_nodes (lblattice sys)).
                 boundary (lbfields s' ! cpu_index (lblattice sys) p) =
                   (if fst (cpu_best sys p) \<le> 0 \<and> lbboundaries sys \<noteq> []
                    then snd (cpu_best sys p) + 1 else 0) \<and>
                 (boundary (lbfields s' ! cpu_index (lblattice sys) p) \<noteq> 0 \<longleftrightarrow>
                    fst (cpu_best sys p) \<le> 0 \<and> lbboundaries sys \<noteq> []))"
    by blast
next
  assume a: "lattice_switch sys = GPU \<and> this_node sys = 0"
  with assms have wf: "wf_ek sys" by (simp add: wf_system_def)
  from gpu_pass [OF wf] obtain L where
    run: "lb_init_boundaries_gpu sys = Inr (gpu_final sys L)"
    and inv: "gpu_inv sys (gpu_ws sys) (gpu_L0 sys) (gpu_nodes (lbpar_gpu sys)) L" by blast
  let ?up = "\<lparr>host_n_lb_boundaries = int (length (lbboundaries sys)),
            host_number_of_boundnodes = number_of_boundnodes L,
            host_boundary_nodes = host_boundary_node_list L,
            host_boundary_indices = host_boundary_index_list L,
            host_boundary_velocity = boundary_velocity (objects L) (lbboundaries sys)\<rparr>"
  from a run have r: "lb_init_boundaries sys = Inr (gpu_final sys L)"
    by (simp add: lb_init_boundaries_def)
  have u: "lb_boundaries_gpu (gpu_final sys L) = Some ?up"
    by (simp add: gpu_final_def)
  from inv have
    "host_number_of_boundnodes ?up =
       int (length (filter (gpu_owned sys) (gpu_nodes (lbpar_gpu sys))))"
    "take (nat (host_number_of_boundnodes ?up)) (host_boundary_nodes ?up) =
       map (gpu_index (lbpar_gpu sys)) (filter (gpu_owned sys) (gpu_nodes (lbpar_gpu sys)))"
    "take (nat (host_number_of_boundnodes ?up)) (host_boundary_indices ?up) =
       map (\<lambda>p. snd (gpu_best sys p) + 1) (filter (gpu_owned sys) (gpu_nodes (lbpar_gpu sys)))"
    using take_padded [of "map (gpu_index (lbpar_gpu sys)) (filter (gpu_owned sys) (gpu_nodes (lbpar_gpu sys)))"]
      take_padded [of "map (\<lambda>p. snd (gpu_best sys p) + 1) (filter (gpu_owned sys) (gpu_nodes (lbpar_gpu sys)))"]
    by (simp_all add: gpu_inv_def)
  with r u show "\<exists>s' up. lb_init_boundaries sys = Inr s' \<and> lb_boundaries_gpu s' = Some up \<and>
              host_number_of_boundnodes up =
                int (length (filter (gpu_owned sys) (gpu_nodes (lbpar_gpu sys)))) \<and>
              take (nat (host_number_of_boundnodes up)) (host_boundary_nodes up) =
                map (gpu_index (lbpar_gpu sys)) (filter (gpu_owned sys) (gpu_nodes (lbpar_gpu sys))) \<and>
              take (nat (host_number_of_boundnodes up)) (host_boundary_indices up) =
                map (\<lambda>p. snd (gpu_best sys p) + 1)
                  (filter (gpu_owned sys) (gpu_nodes (lbpar_gpu sys)))"
    by blast
qed

lemma ex_cpu_best_inside: "cpu_best ex_cpu (0, 0, 2) = (- 1, 0)"
  by (simp add: cpu_best_def ex_cpu_def cpu_pos_def ex_heap_def wall_def Let_def dist_init_def)

lemma ex_cpu_best_outside: "cpu_best ex_cpu (0, 0, 0) = (3, 0)"
  by (simp add: cpu_best_def ex_cpu_def cpu_pos_def ex_heap_def wall_def Let_def dist_init_def)

lemma ex_gpu_nodes: "gpu_nodes (lbpar_gpu ex_gpu) = [(0, 0, 0), (0, 0, 1)]"
  by (simp add: gpu_nodes_def ex_gpu_def ex_cpu_def upto.simps)

lemma ex_gpu_best: "gpu_best ex_gpu (0, 0, 0) = (1, 0)" "gpu_best ex_gpu (0, 0, 1) = (- 1, 0)"
  by (simp_all add: gpu_best_def ex_gpu_def ex_cpu_def gpu_pos_def ex_heap_def wall_def Let_def dist_init_def)

theorem node_owned_iff_best_distance_nonpositive_witness:
  "wf_system ex_cpu \<and> wf_system ex_gpu \<and>
   (\<exists>s'. lb_init_boundaries ex_cpu = Inr s' \<and>
      boundary (lbfields s' ! cpu_index (lblattice ex_cpu) (0, 0, 2)) = 1 \<and>
      boundary (lbfields s' ! cpu_index (lblattice ex_cpu) (0, 0, 0)) = 0) \<and>
   (\<exists>s' up. lb_init_boundaries ex_gpu = Inr s' \<and> lb_boundaries_gpu s' = Some up \<and>
      host_number_of_boundnodes up = 1 \<and>
      take (nat (host_number_of_boundnodes up)) (host_boundary_nodes up) = [1] \<and>
      take (nat (host_number_of_boundnodes up)) (host_boundary_indices up) = [1])"
proof -
  have wc: "wf_system ex_cpu"
    by (simp add: wf_system_def wf_lattice_def ex_cpu_def Let_def)
  have wg: "wf_system ex_gpu"
    by (simp add: wf_system_def wf_ek_def ex_gpu_def ex_cpu_def)
  have c: "lattice_switch ex_cpu = CPU \<and> halo_grid_volume (lblattice ex_cpu) \<noteq> 0"
    and g: "lattice_switch ex_gpu = GPU \<and> this_node ex_gpu = 0"
    by (simp_all add: ex_gpu_def ex_cpu_def)
  have mem: "(0, 0, 2) \<in> set (halo_nodes (lblattice ex_cpu))"
    "(0, 0, 0) \<in> set (halo_nodes (lblattice ex_cpu))"
    by (simp_all add: halo_nodes_def ex_cpu_def)
  have reg: "lbboundaries ex_cpu \<noteq> []" by (simp add: ex_cpu_def)
  from node_owned_iff_best_distance_nonpositive [OF wc] c mem reg
  have cpu: "\<exists>s'. lb_init_boundaries ex_cpu = Inr s' \<and>
      boundary (lbfields s' ! cpu_index (lblattice ex_cpu) (0, 0, 2)) = 1 \<and>
      boundary (lbfields s' ! cpu_index (lblattice ex_cpu) (0, 0, 0)) = 0"
    by (auto simp: ex_cpu_best_inside ex_cpu_best_outside)
  have own: "filter (gpu_owned ex_gpu) (gpu_nodes (lbpar_gpu ex_gpu)) = [(0, 0, 1)]"
    by (simp add: ex_gpu_nodes gpu_owned_def ex_gpu_best) (simp add: ex_gpu_def ex_cpu_def)
  from node_owned_iff_best_distance_nonpositive [OF wg] g
  have gpu: "\<exists>s' up. lb_init_boundaries ex_gpu = Inr s' \<and> lb_boundaries_gpu s' = Some up \<and>
      host_number_of_boundnodes up = 1 \<and>
      take (nat (host_number_of_boundnodes up)) (host_boundary_nodes up) = [1] \<and>
      take (nat (host_number_of_boundnodes up)) (host_boundary_indices up) = [1]"
    by (simp add: own ex_gpu_best gpu_index_def)
  from wc wg cpu gpu show ?thesis by blast
qed

text \<open>
  Claim C5, as the code has it. With an empty registry the CPU pass sets the boundary flag
  of every node of the halo grid to \<open>0\<close> and leaves every slip velocity as it was before
  the pass (line 229 resets the flag only; the slip velocity is written for owned nodes
  alone). On the GPU branch the coordinating process hands the device no boundary node
  and the zero triple as the only velocity.
\<close>

theorem empty_registry_all_fluid:
  assumes "wf_system sys" and "lbboundaries sys = []"
  shows "(lattice_switch sys = CPU \<longrightarrow>
           (\<exists>s'. lb_init_boundaries sys = Inr s' \<and>
              length (lbfields s') = length (lbfields sys) \<and>
              (\<forall>i. int i < halo_grid_volume (lblattice sys) \<longrightarrow>
                 boundary (lbfields s' ! i) = 0 \<and>
                 slip_velocity (lbfields s' ! i) = slip_velocity (lbfields sys ! i)))) \<and>
         (lattice_switch sys = GPU \<and> this_node sys = 0 \<longrightarrow>
           (\<exists>s' up. lb_init_boundaries sys = Inr s' \<and> lb_boundaries_gpu s' = Some up \<and>
              host_number_of_boundnodes up = 0 \<and> host_boundary_nodes up = [] \<and>
              host_boundary_indices up = [] \<and> host_boundary_velocity up = [0, 0, 0]))"
proof (intro conjI impI)
  assume cpu: "lattice_switch sys = CPU"
  with assms have wf: "wf_lattice sys" by (simp add: wf_system_def)
  show "\<exists>s'. lb_init_boundaries sys = Inr s' \<and>
              length (lbfields s') = length (lbfields sys) \<and>
              (\<forall>i. int i < halo_grid_volume (lblattice sys) \<longrightarrow>
                 boundary (lbfields s' ! i) = 0 \<and>
                 slip_velocity (lbfields s' ! i) = slip_velocity (lbfields sys ! i))"
  proof (cases "halo_grid_volume (lblattice sys) = 0")
    case True
    with cpu cpu_pass_empty [OF True] show ?thesis
      by (simp add: lb_init_boundaries_def)
  next
    case False
    with wf have len: "int (length (lbfields sys)) = halo_grid_volume (lblattice sys)"
      by (simp add: wf_lattice_def Let_def)
    from cpu cpu_pass_regular [OF wf False]
    have "lb_init_boundaries sys = Inr (sys\<lparr>lbfields := cpu_result sys\<rparr>)"
      by (simp add: lb_init_boundaries_def)
    with len show ?thesis
      by (simp add: cpu_result_empty_registry [OF assms(2)])
  qed
next
  assume gpu: "lattice_switch sys = GPU \<and> this_node sys = 0"
  with assms have wf: "wf_ek sys" by (simp add: wf_system_def)
  from gpu_pass [OF wf] obtain L where
    run: "lb_init_boundaries_gpu sys = Inr (gpu_final sys L)"
    and inv: "gpu_inv sys (gpu_ws sys) (gpu_L0 sys) (gpu_nodes (lbpar_gpu sys)) L" by blast
  from gpu run have r: "lb_init_boundaries sys = Inr (gpu_final sys L)"
    by (simp add: lb_init_boundaries_def)
  have none: "filter (gpu_owned sys) ps = []" for ps
    using assms(2) by (simp add: gpu_owned_def)
  from inv have "number_of_boundnodes L = 0" "host_boundary_node_list L = []"
    "host_boundary_index_list L = []"
    by (simp_all add: gpu_inv_def none padded_def)
  with r assms(2) show "\<exists>s' up. lb_init_boundaries sys = Inr s' \<and> lb_boundaries_gpu s' = Some up \<and>
              host_number_of_boundnodes up = 0 \<and> host_boundary_nodes up = [] \<and>
              host_boundary_indices up = [] \<and> host_boundary_velocity up = [0, 0, 0]"
    by (simp add: gpu_final_def boundary_velocity_empty)
qed

theorem empty_registry_all_fluid_witness:
  "wf_system ex_empty \<and> lbboundaries ex_empty = [] \<and> lattice_switch ex_empty = CPU \<and>
   (\<exists>s'. lb_init_boundaries ex_empty = Inr s' \<and>
      boundary (lbfields s' ! 26) = 0 \<and> slip_velocity (lbfields s' ! 26) = (1, 1, 1))"
proof -
  have wf: "wf_system ex_empty"
    by (simp add: wf_system_def wf_lattice_def ex_empty_def ex_cpu_def Let_def)
  have e: "lbboundaries ex_empty = []" "lattice_switch ex_empty = CPU"
    by (simp_all add: ex_empty_def ex_cpu_def)
  from empty_registry_all_fluid [OF wf e(1)] e(2) obtain s' where
    "lb_init_boundaries ex_empty = Inr s'"
    "\<forall>i. int i < halo_grid_volume (lblattice ex_empty) \<longrightarrow>
        boundary (lbfields s' ! i) = 0 \<and>
        slip_velocity (lbfields s' ! i) = slip_velocity (lbfields ex_empty ! i)"
    by blast
  then have "lb_init_boundaries ex_empty = Inr s' \<and>
      boundary (lbfields s' ! 26) = 0 \<and> slip_velocity (lbfields s' ! 26) = (1, 1, 1)"
    by (simp add: ex_empty_def ex_cpu_def)
  with wf e show ?thesis by blast
qed

theorem empty_registry_slip_velocity_counterexample:
  "lbboundaries ex_empty = [] \<and>
   outcome lbfields (lb_init_boundaries ex_empty) =
     Some (replicate 27 \<lparr>boundary = 0, slip_velocity = (1, 1, 1)\<rparr>)"
proof -
  have wf: "wf_lattice ex_empty" and vol: "halo_grid_volume (lblattice ex_empty) \<noteq> 0"
    and e: "lbboundaries ex_empty = []"
    by (simp_all add: wf_lattice_def ex_empty_def ex_cpu_def Let_def)
  have "lb_init_boundaries ex_empty = Inr (ex_empty\<lparr>lbfields := cpu_result ex_empty\<rparr>)"
    using cpu_pass_regular [OF wf vol] by (simp add: lb_init_boundaries_def ex_empty_def ex_cpu_def)
  moreover have "cpu_result ex_empty = replicate 27 \<lparr>boundary = 0, slip_velocity = (1, 1, 1)\<rparr>"
    unfolding cpu_result_empty_registry [OF e] by (simp add: ex_empty_def ex_cpu_def)
  ultimately show ?thesis
    using e by (simp add: outcome_def)
qed

section \<open>Idempotence of the pass\<close>

lemma cpu_classify_absorb:
  "cpu_classify sys p ((cpu_classify sys p v)\<lparr>boundary := 0\<rparr>) = cpu_classify sys p v"
  by (simp add: cpu_classify_def)

lemma cpu_result_idem:
  assumes "wf_lattice sys" "halo_grid_volume (lblattice sys) \<noteq> 0"
    and t: "lblattice t = lblattice sys" "lbfields t = cpu_result sys" "cpu_classify t = cpu_classify sys"
  shows "cpu_result t = cpu_result sys"
proof (rule nth_equalityI)
  show "length (cpu_result t) = length (cpu_result sys)"
    by (simp add: t)
next
  fix i assume "i < length (cpu_result t)"
  then have i: "i < length (lbfields sys)" by (simp add: t)
  let ?idx = "cpu_index (lblattice sys)" and ?nodes = "halo_nodes (lblattice sys)"
  from assms(1,2) t have wft: "wf_lattice t" "halo_grid_volume (lblattice t) \<noteq> 0"
    by (simp_all add: wf_lattice_def)
  show "cpu_result t ! i = cpu_result sys ! i"
  proof (cases "i \<in> ?idx ` set ?nodes")
    case True
    then obtain p where p: "p \<in> set ?nodes" "i = ?idx p" by blast
    from p(1) t have pt: "p \<in> set (halo_nodes (lblattice t))" by simp
    show ?thesis
      using cpu_result_node [OF wft pt] cpu_result_node [OF assms(1,2) p(1)]
      by (simp add: t p(2) cpu_classify_absorb)
  next
    case False
    with t have "i \<notin> cpu_index (lblattice t) ` set (halo_nodes (lblattice t))" by simp
    from cpu_result_other [OF this] cpu_result_other [OF False i] i show ?thesis
      by (simp add: t)
  qed
qed

lemma cpu_classify_cong:
  assumes "heap t = heap s" "lbboundaries t = lbboundaries s" "lblattice t = lblattice s"
    "node_pos t = node_pos s" "lb_tau t = lb_tau s" "lb_agrid t = lb_agrid s"
  shows "cpu_classify t = cpu_classify s"
  using assms by (intro ext) (simp add: cpu_classify_def cpu_best_def cpu_pos_def)

lemma cpu_pass_idem:
  assumes "wf_lattice sys" and "lattice_switch sys = CPU"
  shows "\<exists>s1. lb_init_boundaries sys = Inr s1 \<and>
           (\<forall>g. \<exists>s2. lb_init_boundaries (s1\<lparr>ek_gather := g\<rparr>) = Inr s2 \<and>
                  lbfields s2 = lbfields s1 \<and> heap s2 = heap s1 \<and>
                  lb_boundaries_gpu s2 = lb_boundaries_gpu s1)"
proof (cases "halo_grid_volume (lblattice sys) = 0")
  case True
  have "lb_init_boundaries (sys\<lparr>ek_gather := g\<rparr>) = Inr (sys\<lparr>ek_gather := g\<rparr>)" for g
    using cpu_pass_empty [of "sys\<lparr>ek_gather := g\<rparr>"] True assms(2)
    by (simp add: lb_init_boundaries_def)
  with cpu_pass_empty [OF True] assms(2) show ?thesis
    by (simp add: lb_init_boundaries_def)
next
  case False
  let ?s1 = "sys\<lparr>lbfields := cpu_result sys\<rparr>"
  have run1: "lb_init_boundaries sys = Inr ?s1"
    using cpu_pass_regular [OF assms(1) False] assms(2) by (simp add: lb_init_boundaries_def)
  have "\<exists>s2. lb_init_boundaries (?s1\<lparr>ek_gather := g\<rparr>) = Inr s2 \<and>
             lbfields s2 = lbfields ?s1 \<and> heap s2 = heap ?s1 \<and>
             lb_boundaries_gpu s2 = lb_boundaries_gpu ?s1" for g
  proof -
    let ?t = "?s1\<lparr>ek_gather := g\<rparr>"
    from assms(1) False have wft: "wf_lattice ?t" "halo_grid_volume (lblattice ?t) \<noteq> 0"
      by (simp_all add: wf_lattice_def)
    have cls: "cpu_classify ?t = cpu_classify sys"
      by (rule cpu_classify_cong) simp_all
    have "cpu_result ?t = cpu_result sys"
      by (rule cpu_result_idem [OF assms(1) False]) (simp_all add: cls)
    with cpu_pass_regular [OF wft] assms(2) show ?thesis
      by (simp add: lb_init_boundaries_def)
  qed
  with run1 show ?thesis by blast
qed

lemma count_list_absent: "r \<notin> set xs \<Longrightarrow> count_list xs r = 0"
  by (induction xs) auto

lemma gpu_cong:
  assumes "same_shapes (heap t) (heap s)" "lbboundaries t = lbboundaries s"
    "gpu_agrid (lbpar_gpu t) = gpu_agrid (lbpar_gpu s)"
    "gpu_dim_x (lbpar_gpu t) = gpu_dim_x (lbpar_gpu s)"
    "gpu_dim_y (lbpar_gpu t) = gpu_dim_y (lbpar_gpu s)"
    "gpu_dim_z (lbpar_gpu t) = gpu_dim_z (lbpar_gpu s)"
  shows "gpu_best t = gpu_best s" "gpu_owned t = gpu_owned s"
    "gpu_nodes (lbpar_gpu t) = gpu_nodes (lbpar_gpu s)"
    "gpu_index (lbpar_gpu t) = gpu_index (lbpar_gpu s)"
    "gpu_pos_of t = gpu_pos_of s"
    "wall_charge (heap t) = wall_charge (heap s)"
proof -
  from assms(1) have cd: "\<And>q. calc_dist (heap t q) = calc_dist (heap s q)"
    and ch: "\<And>q. charge_density (heap t q) = charge_density (heap s q)"
    by (simp_all add: same_shapes_def)
  have pos: "gpu_pos t = gpu_pos s"
    using assms(3) by (intro ext) (simp add: gpu_pos_def)
  have sc: "scan_cpu (heap t) ps pos n acc = scan_cpu (heap s) ps pos n acc" for ps pos n acc
    by (rule scan_cpu_cong_store) (simp add: cd)
  show b: "gpu_best t = gpu_best s"
    by (intro ext) (simp add: gpu_best_def pos sc assms(2) split: prod.splits)
  show "gpu_owned t = gpu_owned s"
    by (intro ext) (simp add: gpu_owned_def b assms(2))
  show "gpu_nodes (lbpar_gpu t) = gpu_nodes (lbpar_gpu s)"
    by (simp add: gpu_nodes_def assms)
  show "gpu_index (lbpar_gpu t) = gpu_index (lbpar_gpu s)"
    by (simp add: gpu_index_def assms)
  show "gpu_pos_of t = gpu_pos_of s"
    by (simp add: gpu_pos_of_def pos)
  show "wall_charge (heap t) = wall_charge (heap s)"
    by (intro ext wall_charge_cong) (simp_all add: cd ch)
qed

lemma same_setup_ek:
  assumes "same_setup t s"
  shows "wf_ek t = wf_ek s" "gpu_ws t = gpu_ws s" "gpu_charged t = gpu_charged s"
    "node_charge t = node_charge s" "ek_index (ek_parameters t) = ek_index (ek_parameters s)"
    "ek_gather t = ek_gather s \<Longrightarrow> gpu_buffer0 t = gpu_buffer0 s"
proof -
  from assms have sh: "same_shapes (heap t) (heap s)" and reg: "lbboundaries t = lbboundaries s"
    and g: "gpu_agrid (lbpar_gpu t) = gpu_agrid (lbpar_gpu s)"
      "gpu_dim_x (lbpar_gpu t) = gpu_dim_x (lbpar_gpu s)"
      "gpu_dim_y (lbpar_gpu t) = gpu_dim_y (lbpar_gpu s)"
      "gpu_dim_z (lbpar_gpu t) = gpu_dim_z (lbpar_gpu s)"
    and e: "ek_agrid (ek_parameters t) = ek_agrid (ek_parameters s)"
      "ek_dim_x (ek_parameters t) = ek_dim_x (ek_parameters s)"
      "ek_dim_y (ek_parameters t) = ek_dim_y (ek_parameters s)"
      "ek_number_of_nodes (ek_parameters t) = ek_number_of_nodes (ek_parameters s)"
      "ek_number_of_species (ek_parameters t) = ek_number_of_species (ek_parameters s)"
      "ek_valency (ek_parameters t) = ek_valency (ek_parameters s)"
      "ek_initialized t = ek_initialized s"
    by (simp_all add: same_setup_def)
  note c = gpu_cong [OF sh reg g]
  from sh have cd: "\<And>q. calc_dist (heap t q) = calc_dist (heap s q)"
    and ch: "\<And>q. charge_density (heap t q) = charge_density (heap s q)"
    by (simp_all add: same_shapes_def)
  have pos: "gpu_pos t = gpu_pos s"
    using g(1) by (intro ext) (simp add: gpu_pos_def)
  show "wf_ek t = wf_ek s" by (simp add: wf_ek_def g e)
  show ws: "gpu_ws t = gpu_ws s" by (simp add: gpu_ws_def find_wallcharge_species_def e)
  show "gpu_charged t = gpu_charged s"
    by (intro ext) (simp add: gpu_charged_def cd ch pos reg split: prod.splits)
  show "node_charge t = node_charge s"
    by (intro ext) (simp add: node_charge_def c(6) pos reg e split: prod.splits)
  show "ek_index (ek_parameters t) = ek_index (ek_parameters s)"
    by (simp add: ek_index_def e)
  show "gpu_buffer0 t = gpu_buffer0 s" if "ek_gather t = ek_gather s"
    using that by (simp add: gpu_buffer0_def ws e)
qed

lemma gpu_inv_same_setup:
  assumes st: "same_setup t s"
    and inv_s: "gpu_inv s (gpu_ws s) (gpu_L0 s) (gpu_nodes (lbpar_gpu s)) L"
    and inv_t: "gpu_inv t (gpu_ws t) (gpu_L0 t) (gpu_nodes (lbpar_gpu t)) L'"
  shows "number_of_boundnodes L' = number_of_boundnodes L"
    "host_boundary_node_list L' = host_boundary_node_list L"
    "host_boundary_index_list L' = host_boundary_index_list L"
    "same_shapes (objects L') (objects L)"
    "r \<in> set (lbboundaries s) \<Longrightarrow> net_charge (objects L' r) = net_charge (objects L r)"
    "r \<notin> set (lbboundaries s) \<Longrightarrow> net_charge (objects L' r) = net_charge (heap t r)"
    "r \<notin> set (lbboundaries s) \<Longrightarrow> net_charge (objects L r) = net_charge (heap s r)"
    "ek_gather t = ek_gather s \<Longrightarrow>
       host_wallcharge_species_density L' = host_wallcharge_species_density L"
proof -
  from st have sh: "same_shapes (heap t) (heap s)" and reg: "lbboundaries t = lbboundaries s"
    and g: "gpu_agrid (lbpar_gpu t) = gpu_agrid (lbpar_gpu s)"
      "gpu_dim_x (lbpar_gpu t) = gpu_dim_x (lbpar_gpu s)"
      "gpu_dim_y (lbpar_gpu t) = gpu_dim_y (lbpar_gpu s)"
      "gpu_dim_z (lbpar_gpu t) = gpu_dim_z (lbpar_gpu s)"
    and e: "ek_agrid (ek_parameters t) = ek_agrid (ek_parameters s)"
      "ek_valency (ek_parameters t) = ek_valency (ek_parameters s)"
      "ek_initialized t = ek_initialized s"
    by (simp_all add: same_setup_def)
  note c = gpu_cong [OF sh reg g]
  note k = same_setup_ek [OF st]
  from inv_s inv_t show "number_of_boundnodes L' = number_of_boundnodes L"
    "host_boundary_node_list L' = host_boundary_node_list L"
    "host_boundary_index_list L' = host_boundary_index_list L"
    by (simp_all add: gpu_inv_def c)
  from inv_s inv_t have "same_shapes (objects L') (heap t)" "same_shapes (objects L) (heap s)"
    by (simp_all add: gpu_inv_def)
  with sh show "same_shapes (objects L') (objects L)"
    by (simp add: same_shapes_def)
  from inv_s have ns: "net_charge (objects L r) = net_charge (objects (gpu_L0 s) r) +
          (if ek_initialized s
           then real (count_list (lbboundaries s) r) *
                sum_list (map (\<lambda>p. wall_charge (heap s) (ek_agrid (ek_parameters s))
                                      (gpu_pos_of s p) r) (gpu_nodes (lbpar_gpu s)))
           else 0)"
    by (simp add: gpu_inv_def)
  from inv_t have nt: "net_charge (objects L' r) = net_charge (objects (gpu_L0 t) r) +
          (if ek_initialized s
           then real (count_list (lbboundaries s) r) *
                sum_list (map (\<lambda>p. wall_charge (heap s) (ek_agrid (ek_parameters s))
                                      (gpu_pos_of s p) r) (gpu_nodes (lbpar_gpu s)))
           else 0)"
    by (simp add: gpu_inv_def c reg e)
  show "net_charge (objects L' r) = net_charge (objects L r)" if "r \<in> set (lbboundaries s)"
    using that by (simp add: ns nt gpu_L0_def reset_net_charges_apply reg set_net_charge_def)
  show "net_charge (objects L' r) = net_charge (heap t r)" if "r \<notin> set (lbboundaries s)"
    using that by (simp add: nt gpu_L0_def reset_net_charges_apply reg count_list_absent)
  show "net_charge (objects L r) = net_charge (heap s r)" if "r \<notin> set (lbboundaries s)"
    using that by (simp add: ns gpu_L0_def reset_net_charges_apply count_list_absent)
  show "host_wallcharge_species_density L' = host_wallcharge_species_density L"
    if "ek_gather t = ek_gather s"
    using inv_s inv_t k(6) [OF that]
    by (simp add: gpu_inv_def k(2,3,4,5) c e gpu_L0_def)
qed

lemma gpu_pass_idem:
  assumes "wf_ek sys" and "lattice_switch sys = GPU" and "this_node sys = 0"
  shows "\<exists>s1. lb_init_boundaries sys = Inr s1 \<and>
           (\<forall>g. \<exists>s2. lb_init_boundaries (s1\<lparr>ek_gather := g\<rparr>) = Inr s2 \<and>
                  lbfields s2 = lbfields s1 \<and> heap s2 = heap s1 \<and>
                  lb_boundaries_gpu s2 = lb_boundaries_gpu s1)"
proof -
  from gpu_pass [OF assms(1)] obtain L where
    run: "lb_init_boundaries_gpu sys = Inr (gpu_final sys L)"
    and inv: "gpu_inv sys (gpu_ws sys) (gpu_L0 sys) (gpu_nodes (lbpar_gpu sys)) L" by blast
  let ?s1 = "gpu_final sys L"
  from run assms have run1: "lb_init_boundaries sys = Inr ?s1"
    by (simp add: lb_init_boundaries_def)
  from inv have shL: "same_shapes (objects L) (heap sys)"
    by (simp add: gpu_inv_def)
  have "\<exists>s2. lb_init_boundaries (?s1\<lparr>ek_gather := g\<rparr>) = Inr s2 \<and>
             lbfields s2 = lbfields ?s1 \<and> heap s2 = heap ?s1 \<and>
             lb_boundaries_gpu s2 = lb_boundaries_gpu ?s1" for g
  proof -
    let ?t = "?s1\<lparr>ek_gather := g\<rparr>"
    have st: "same_setup ?t sys"
      using shL by (simp add: same_setup_def gpu_final_def)
    from same_setup_ek(1) [OF st] assms(1) have wft: "wf_ek ?t" by simp
    from gpu_pass [OF wft] obtain L' where
      run': "lb_init_boundaries_gpu ?t = Inr (gpu_final ?t L')"
      and inv': "gpu_inv ?t (gpu_ws ?t) (gpu_L0 ?t) (gpu_nodes (lbpar_gpu ?t)) L'" by blast
    note eqs = gpu_inv_same_setup [OF st inv inv']
    have reg: "lbboundaries ?t = lbboundaries sys" by (simp add: gpu_final_def)
    have ht: "heap ?t = objects L" by (simp add: gpu_final_def)
    have obj: "objects L' = objects L"
    proof
      fix r
      have nc: "net_charge (objects L' r) = net_charge (objects L r)"
        using eqs(5) [of r] eqs(6) [of r] ht by (cases "r \<in> set (lbboundaries sys)") simp_all
      from eqs(4) nc show "objects L' r = objects L r"
        by (intro LBBoundary.equality) (simp_all add: same_shapes_def)
    qed
    from assms have sw: "lattice_switch ?t = GPU" "this_node ?t = 0"
      by (simp_all add: gpu_final_def)
    from run' sw have "lb_init_boundaries ?t = Inr (gpu_final ?t L')"
      by (simp add: lb_init_boundaries_def)
    moreover have "lbfields (gpu_final ?t L') = lbfields ?s1"
      "heap (gpu_final ?t L') = heap ?s1"
      "lb_boundaries_gpu (gpu_final ?t L') = lb_boundaries_gpu ?s1"
      by (simp_all add: gpu_final_def obj eqs(1,2,3))
    ultimately show ?thesis by blast
  qed
  with run1 show ?thesis by blast
qed

text \<open>
  Claim C9. On a well-formed system the pass succeeds, and a second pass on the state the
  first one left (whatever the electrokinetic solver delivers to the second gather,
  \<open>g = ek_gather s1\<close> being the plain second run) succeeds and yields the same node fields
  (boundary flags and slip velocities), the same boundary objects (with their net
  charges) and the same node list, index list and velocity table for the device.
\<close>

theorem classification_idempotent:
  assumes "wf_system sys"
  shows "\<exists>s1. lb_init_boundaries sys = Inr s1 \<and>
           (\<exists>s2. lb_init_boundaries s1 = Inr s2 \<and>
                  lbfields s2 = lbfields s1 \<and> heap s2 = heap s1 \<and>
                  lb_boundaries_gpu s2 = lb_boundaries_gpu s1) \<and>
           (\<forall>g. \<exists>s2. lb_init_boundaries (s1\<lparr>ek_gather := g\<rparr>) = Inr s2 \<and>
                  lbfields s2 = lbfields s1 \<and> heap s2 = heap s1 \<and>
                  lb_boundaries_gpu s2 = lb_boundaries_gpu s1)"
proof -
  have "\<exists>s1. lb_init_boundaries sys = Inr s1 \<and>
           (\<forall>g. \<exists>s2. lb_init_boundaries (s1\<lparr>ek_gather := g\<rparr>) = Inr s2 \<and>
                  lbfields s2 = lbfields s1 \<and> heap s2 = heap s1 \<and>
                  lb_boundaries_gpu s2 = lb_boundaries_gpu s1)"
  proof (cases "lattice_switch sys")
    case NONE
    then show ?thesis by (simp add: lb_init_boundaries_def)
  next
    case CPU
    with assms cpu_pass_idem show ?thesis by (simp add: wf_system_def)
  next
    case GPU
    show ?thesis
    proof (cases "this_node sys = 0")
      case True
      with GPU assms gpu_pass_idem show ?thesis by (simp add: wf_system_def)
    next
      case False
      with GPU show ?thesis by (simp add: lb_init_boundaries_def)
    qed
  qed
  then obtain s1 where run: "lb_init_boundaries sys = Inr s1"
    and again: "\<And>g. \<exists>s2. lb_init_boundaries (s1\<lparr>ek_gather := g\<rparr>) = Inr s2 \<and>
                  lbfields s2 = lbfields s1 \<and> heap s2 = heap s1 \<and>
                  lb_boundaries_gpu s2 = lb_boundaries_gpu s1"
    by blast
  from again [of "ek_gather s1"] have "\<exists>s2. lb_init_boundaries s1 = Inr s2 \<and>
                  lbfields s2 = lbfields s1 \<and> heap s2 = heap s1 \<and>
                  lb_boundaries_gpu s2 = lb_boundaries_gpu s1"
    by simp
  with run again show ?thesis by blast
qed

theorem classification_idempotent_witness:
  "wf_system ex_cpu \<and> wf_system ex_gpu \<and>
   (\<exists>s1 s2. lb_init_boundaries ex_cpu = Inr s1 \<and> lb_init_boundaries s1 = Inr s2 \<and>
      lbfields s2 = lbfields s1) \<and>
   (\<exists>s1 s2. lb_init_boundaries ex_gpu = Inr s1 \<and> lb_init_boundaries s1 = Inr s2 \<and>
      heap s2 = heap s1 \<and> lb_boundaries_gpu s2 = lb_boundaries_gpu s1)"
proof -
  have wc: "wf_system ex_cpu"
    by (simp add: wf_system_def wf_lattice_def ex_cpu_def Let_def)
  have wg: "wf_system ex_gpu"
    by (simp add: wf_system_def wf_ek_def ex_gpu_def ex_cpu_def)
  from classification_idempotent [OF wc] classification_idempotent [OF wg] wc wg
  show ?thesis by blast
qed

section \<open>Wall charge\<close>

lemma sum_wall_charge:
  "sum_list (map (\<lambda>p. wall_charge h a (pos p) r) ps) =
   real (length (filter (\<lambda>p. fst (calc_dist (h r) (pos p)) \<le> 0) ps)) *
     (charge_density (h r) * a * a * a)"
  by (induction ps) (simp_all add: wall_charge_def algebra_simps)

lemma ek_index_inj:
  assumes "wf_ek sys" "ek_initialized sys"
  shows "inj_on (\<lambda>p. nat (ek_index (ek_parameters sys) p)) (set (gpu_nodes (lbpar_gpu sys)))"
proof (rule inj_onI)
  let ?g = "lbpar_gpu sys"
  fix p q assume p: "p \<in> set (gpu_nodes ?g)" and q: "q \<in> set (gpu_nodes ?g)"
    and eq: "nat (ek_index (ek_parameters sys) p) = nat (ek_index (ek_parameters sys) q)"
  obtain z y x where pz: "p = (z, y, x)" by (cases p)
  obtain z' y' x' where qz: "q = (z', y', x')" by (cases q)
  from gpu_nodes_range p pz
  have r: "0 \<le> x" "x < gpu_dim_x ?g" "0 \<le> y" "y < gpu_dim_y ?g" "0 \<le> z" "z < gpu_dim_z ?g"
    by blast+
  from gpu_nodes_range q qz
  have r': "0 \<le> x'" "x' < gpu_dim_x ?g" "0 \<le> y'" "y' < gpu_dim_y ?g" "0 \<le> z'" "z' < gpu_dim_z ?g"
    by blast+
  from assms have e: "ek_dim_x (ek_parameters sys) = gpu_dim_x ?g"
    "ek_dim_y (ek_parameters sys) = gpu_dim_y ?g"
    by (simp_all add: wf_ek_def)
  have ip: "ek_index (ek_parameters sys) p = x + gpu_dim_x ?g * (y + gpu_dim_y ?g * z)"
    and iq: "ek_index (ek_parameters sys) q = x' + gpu_dim_x ?g * (y' + gpu_dim_y ?g * z')"
    by (simp_all add: ek_index_def pz qz e algebra_simps)
  from linear_index_bounds(1) [OF r] linear_index_bounds(1) [OF r'] eq
  have "x + gpu_dim_x ?g * (y + gpu_dim_y ?g * z) = x' + gpu_dim_x ?g * (y' + gpu_dim_y ?g * z')"
    by (simp add: ip iq)
  from linear_index_inj [OF r(1,2) r'(1,2) r(3,4) r'(3,4) this] show "p = q"
    by (simp add: pz qz)
qed

lemma gpu_buffer_entry:
  assumes wf: "wf_ek sys" and eki: "ek_initialized sys"
    and inv: "gpu_inv sys (gpu_ws sys) (gpu_L0 sys) (gpu_nodes (lbpar_gpu sys)) L"
    and p: "p \<in> set (gpu_nodes (lbpar_gpu sys))"
  shows "host_wallcharge_species_density L ! nat (ek_index (ek_parameters sys) p) =
           (if gpu_ws sys \<noteq> - 1 \<and> gpu_charged sys p
            then node_charge sys p / ek_valency (ek_parameters sys) (nat (gpu_ws sys))
            else ek_gather sys (gpu_ws sys) (nat (ek_index (ek_parameters sys) p)))"
    and "length (host_wallcharge_species_density L) = nat (ek_number_of_nodes (ek_parameters sys))"
proof -
  let ?idx = "\<lambda>p. nat (ek_index (ek_parameters sys) p)"
  let ?nodes = "gpu_nodes (lbpar_gpu sys)"
  let ?upd = "\<lambda>p (v::real). node_charge sys p / ek_valency (ek_parameters sys) (nat (gpu_ws sys))"
  from inv eki have buf: "host_wallcharge_species_density L =
       (if gpu_ws sys \<noteq> - 1
        then apply_writes ?idx ?upd (filter (gpu_charged sys) ?nodes) (gpu_buffer0 sys)
        else gpu_buffer0 sys)"
    by (simp add: gpu_inv_def gpu_L0_def)
  from ek_index_range [OF wf eki p] have rng: "?idx p < length (gpu_buffer0 sys)" by simp
  from eki have len0: "length (gpu_buffer0 sys) = nat (ek_number_of_nodes (ek_parameters sys))"
    by (simp add: gpu_buffer0_def)
  from rng eki have b0: "gpu_buffer0 sys ! ?idx p = ek_gather sys (gpu_ws sys) (?idx p)"
    by (simp add: gpu_buffer0_def)
  have d: "distinct (map ?idx (filter (gpu_charged sys) ?nodes))"
  proof -
    have "distinct ?nodes" by (simp add: gpu_nodes_def distinct_product)
    with ek_index_inj [OF wf eki] have "distinct (map ?idx ?nodes)"
      by (simp add: distinct_map)
    then show ?thesis by (rule distinct_map_filter)
  qed
  show "length (host_wallcharge_species_density L) = nat (ek_number_of_nodes (ek_parameters sys))"
    by (simp add: buf len0)
  show "host_wallcharge_species_density L ! ?idx p =
           (if gpu_ws sys \<noteq> - 1 \<and> gpu_charged sys p
            then node_charge sys p / ek_valency (ek_parameters sys) (nat (gpu_ws sys))
            else ek_gather sys (gpu_ws sys) (?idx p))"
  proof (cases "gpu_ws sys \<noteq> - 1 \<and> gpu_charged sys p")
    case True
    with p have "p \<in> set (filter (gpu_charged sys) ?nodes)" by simp
    from apply_writes_hit [OF d this rng, of ?upd] True show ?thesis
      by (simp add: buf)
  next
    case False
    show ?thesis
    proof (cases "gpu_ws sys = - 1")
      case True
      then show ?thesis by (simp add: buf b0)
    next
      case ws: False
      with False have np: "\<not> gpu_charged sys p" by simp
      have "?idx p \<notin> ?idx ` set (filter (gpu_charged sys) ?nodes)"
      proof
        assume "?idx p \<in> ?idx ` set (filter (gpu_charged sys) ?nodes)"
        then obtain q where q: "q \<in> set ?nodes" "gpu_charged sys q" "?idx p = ?idx q" by auto
        from inj_onD [OF ek_index_inj [OF wf eki] q(3) p q(1)] q(2) np show False by simp
      qed
      from apply_writes_other [OF this, of ?upd "gpu_buffer0 sys"] ws np show ?thesis
        by (simp add: buf b0)
    qed
  qed
qed

lemma gpu_net_charge_closed:
  assumes inv: "gpu_inv sys (gpu_ws sys) (gpu_L0 sys) (gpu_nodes (lbpar_gpu sys)) L"
    and eki: "ek_initialized sys"
  shows "net_charge (objects L r) =
           (if r \<in> set (lbboundaries sys) then 0 else net_charge (heap sys r)) +
           real (count_list (lbboundaries sys) r) *
             (real (length (filter (gpu_inside sys r) (gpu_nodes (lbpar_gpu sys)))) *
              (charge_density (heap sys r) * ek_agrid (ek_parameters sys) *
               ek_agrid (ek_parameters sys) * ek_agrid (ek_parameters sys)))"
proof -
  from inv eki have "net_charge (objects L r) = net_charge (objects (gpu_L0 sys) r) +
      real (count_list (lbboundaries sys) r) *
        sum_list (map (\<lambda>p. wall_charge (heap sys) (ek_agrid (ek_parameters sys))
                              (gpu_pos_of sys p) r) (gpu_nodes (lbpar_gpu sys)))"
    by (simp add: gpu_inv_def)
  moreover have "gpu_inside sys r = (\<lambda>p. fst (calc_dist (heap sys r) (gpu_pos_of sys p)) \<le> 0)"
    by (intro ext) (simp add: gpu_inside_def)
  ultimately show ?thesis
    unfolding sum_wall_charge
    by (simp add: gpu_L0_def reset_net_charges_apply set_net_charge_def)
qed

lemma gpu_owned_single:
  assumes "lbboundaries sys = [b]"
  shows "gpu_owned sys p = gpu_inside sys b p"
proof -
  obtain z y x where p: "p = (z, y, x)" by (cases p)
  show ?thesis
    using assms by (simp add: gpu_owned_def gpu_best_def gpu_inside_def gpu_pos_of_def p Let_def)
qed

lemma find_wallcharge_species_found:
  assumes "find_wallcharge_species ek \<noteq> - 1"
  shows "0 \<le> find_wallcharge_species ek \<and> find_wallcharge_species ek < ek_number_of_species ek \<and>
         ek_valency ek (nat (find_wallcharge_species ek)) \<noteq> 0 \<and>
         (\<forall>n. 0 \<le> n \<and> n < find_wallcharge_species ek \<longrightarrow> ek_valency ek (nat n) = 0)"
proof (cases "find (\<lambda>n. ek_valency ek (nat n) \<noteq> 0) [0 .. ek_number_of_species ek - 1]")
  case None
  with assms show ?thesis by (simp add: find_wallcharge_species_def)
next
  case (Some n)
  then have ws: "find_wallcharge_species ek = n" by (simp add: find_wallcharge_species_def)
  from Some obtain i where i: "i < length [0 .. ek_number_of_species ek - 1]"
    "ek_valency ek (nat ([0 .. ek_number_of_species ek - 1] ! i)) \<noteq> 0"
    "n = [0 .. ek_number_of_species ek - 1] ! i"
    "\<forall>j < i. \<not> ek_valency ek (nat ([0 .. ek_number_of_species ek - 1] ! j)) \<noteq> 0"
    unfolding find_Some_iff by blast
  from i(1) have il: "int i \<le> ek_number_of_species ek - 1" by simp
  from i(1,3) have n: "n = int i" by (simp add: nth_upto)
  have "ek_valency ek (nat m) = 0" if "0 \<le> m" "m < n" for m
  proof -
    from that n have "nat m < i" by simp
    from i(4) [rule_format, OF this] that n il show ?thesis
      by (simp add: nth_upto)
  qed
  with i(2) n il show ?thesis by (simp add: ws)
qed

lemma find_wallcharge_species_none:
  "find_wallcharge_species ek = - 1 \<longleftrightarrow>
     (\<forall>n. 0 \<le> n \<and> n < ek_number_of_species ek \<longrightarrow> ek_valency ek (nat n) = 0)"
proof (cases "find (\<lambda>n. ek_valency ek (nat n) \<noteq> 0) [0 .. ek_number_of_species ek - 1]")
  case None
  then have "\<forall>n. 0 \<le> n \<and> n < ek_number_of_species ek \<longrightarrow> ek_valency ek (nat n) = 0"
    by (auto simp: find_None_iff)
  with None show ?thesis by (simp add: find_wallcharge_species_def)
next
  case (Some n)
  then have ws: "find_wallcharge_species ek = n" by (simp add: find_wallcharge_species_def)
  from Some have "n \<in> set [0 .. ek_number_of_species ek - 1]" "ek_valency ek (nat n) \<noteq> 0"
    by (auto simp: find_Some_iff)
  then have "0 \<le> n" "n < ek_number_of_species ek" "ek_valency ek (nat n) \<noteq> 0" by simp_all
  then show ?thesis unfolding ws by force
qed

text \<open>
  Claim C3, as the code has it. During the GPU sweep of the coordinating process with an
  initialised electrokinetic solver, at each node every registry entry whose boundary
  reports a distance \<open>\<le> 0\<close> there and has a nonzero charge density, owner of the node or
  not, adds charge density times cell volume to the net charge of its boundary and to the
  wall charge of the node (\<open>node_charge\<close>). So the net charge of a registered boundary is
  (number of registry entries holding it) times (number of nodes at which it reports a
  distance \<open>\<le> 0\<close>) times cell volume times charge density, the net charge of an object
  outside the registry is untouched, and, when a species with nonzero valency exists, the
  buffer entry of every charged node is the node's wall charge divided by the valency of
  the first such species. With a single boundary in the registry the nodes counted are
  the nodes it owns.
\<close>

theorem wall_charge_accumulation:
  assumes "wf_system sys" and "lattice_switch sys = GPU" and "this_node sys = 0"
    and "ek_initialized sys"
  shows "\<exists>s' buf. lb_init_boundaries sys = Inr s' \<and>
     (\<forall>r \<in> set (lbboundaries sys).
        net_charge (heap s' r) =
          real (count_list (lbboundaries sys) r) *
            (real (length (filter (gpu_inside sys r) (gpu_nodes (lbpar_gpu sys)))) *
             (charge_density (heap sys r) * ek_agrid (ek_parameters sys) *
              ek_agrid (ek_parameters sys) * ek_agrid (ek_parameters sys)))) \<and>
     (\<forall>r. r \<notin> set (lbboundaries sys) \<longrightarrow> net_charge (heap s' r) = net_charge (heap sys r)) \<and>
     ek_wallcharge s' = Some (buf, gpu_ws sys) \<and>
     (gpu_ws sys \<noteq> - 1 \<longrightarrow>
        ek_valency (ek_parameters sys) (nat (gpu_ws sys)) \<noteq> 0 \<and>
        (\<forall>p \<in> set (gpu_nodes (lbpar_gpu sys)). gpu_charged sys p \<longrightarrow>
           buf ! nat (ek_index (ek_parameters sys) p) =
             node_charge sys p / ek_valency (ek_parameters sys) (nat (gpu_ws sys)))) \<and>
     (\<forall>b. lbboundaries sys = [b] \<longrightarrow>
        net_charge (heap s' b) =
          real (length (filter (gpu_owned sys) (gpu_nodes (lbpar_gpu sys)))) *
            (charge_density (heap sys b) * ek_agrid (ek_parameters sys) *
             ek_agrid (ek_parameters sys) * ek_agrid (ek_parameters sys)))"
proof -
  from assms have wf: "wf_ek sys" by (simp add: wf_system_def)
  from gpu_pass [OF wf] obtain L where
    run: "lb_init_boundaries_gpu sys = Inr (gpu_final sys L)"
    and inv: "gpu_inv sys (gpu_ws sys) (gpu_L0 sys) (gpu_nodes (lbpar_gpu sys)) L" by blast
  let ?s' = "gpu_final sys L" and ?buf = "host_wallcharge_species_density L"
  from run assms have r1: "lb_init_boundaries sys = Inr ?s'"
    by (simp add: lb_init_boundaries_def)
  have hp: "heap ?s' = objects L" by (simp add: gpu_final_def)
  note nc = gpu_net_charge_closed [OF inv assms(4)]
  have c1: "\<forall>r \<in> set (lbboundaries sys).
        net_charge (heap ?s' r) =
          real (count_list (lbboundaries sys) r) *
            (real (length (filter (gpu_inside sys r) (gpu_nodes (lbpar_gpu sys)))) *
             (charge_density (heap sys r) * ek_agrid (ek_parameters sys) *
              ek_agrid (ek_parameters sys) * ek_agrid (ek_parameters sys)))"
    by (simp add: hp nc)
  have c2: "\<forall>r. r \<notin> set (lbboundaries sys) \<longrightarrow> net_charge (heap ?s' r) = net_charge (heap sys r)"
    by (simp add: hp nc count_list_absent)
  have c3: "ek_wallcharge ?s' = Some (?buf, gpu_ws sys)"
    using assms(4) by (simp add: gpu_final_def)
  have c4: "gpu_ws sys \<noteq> - 1 \<longrightarrow>
        ek_valency (ek_parameters sys) (nat (gpu_ws sys)) \<noteq> 0 \<and>
        (\<forall>p \<in> set (gpu_nodes (lbpar_gpu sys)). gpu_charged sys p \<longrightarrow>
           ?buf ! nat (ek_index (ek_parameters sys) p) =
             node_charge sys p / ek_valency (ek_parameters sys) (nat (gpu_ws sys)))"
  proof (intro impI conjI ballI)
    assume ws: "gpu_ws sys \<noteq> - 1"
    with assms(4) find_wallcharge_species_found [of "ek_parameters sys"]
    show "ek_valency (ek_parameters sys) (nat (gpu_ws sys)) \<noteq> 0"
      by (simp add: gpu_ws_def)
    fix p assume "p \<in> set (gpu_nodes (lbpar_gpu sys))" "gpu_charged sys p"
    with gpu_buffer_entry(1) [OF wf assms(4) inv] ws
    show "?buf ! nat (ek_index (ek_parameters sys) p) =
             node_charge sys p / ek_valency (ek_parameters sys) (nat (gpu_ws sys))"
      by simp
  qed
  have c5: "\<forall>b. lbboundaries sys = [b] \<longrightarrow>
        net_charge (heap ?s' b) =
          real (length (filter (gpu_owned sys) (gpu_nodes (lbpar_gpu sys)))) *
            (charge_density (heap sys b) * ek_agrid (ek_parameters sys) *
             ek_agrid (ek_parameters sys) * ek_agrid (ek_parameters sys))"
  proof (intro allI impI)
    fix b assume b: "lbboundaries sys = [b]"
    have "gpu_owned sys = gpu_inside sys b"
      by (intro ext) (rule gpu_owned_single [OF b])
    with b show "net_charge (heap ?s' b) =
          real (length (filter (gpu_owned sys) (gpu_nodes (lbpar_gpu sys)))) *
            (charge_density (heap sys b) * ek_agrid (ek_parameters sys) *
             ek_agrid (ek_parameters sys) * ek_agrid (ek_parameters sys))"
      by (simp add: hp nc)
  qed
  from r1 c1 c2 c3 c4 c5 show ?thesis by blast
qed

theorem wall_charge_accumulation_witness:
  "wf_system ex_gpu \<and> lattice_switch ex_gpu = GPU \<and> this_node ex_gpu = 0 \<and>
   ek_initialized ex_gpu \<and>
   (\<exists>s'. lb_init_boundaries ex_gpu = Inr s' \<and> net_charge (heap s' 0) = 16 \<and>
         net_charge (heap s' 2) = 0)"
proof -
  have wg: "wf_system ex_gpu"
    by (simp add: wf_system_def wf_ek_def ex_gpu_def ex_cpu_def)
  have g: "lattice_switch ex_gpu = GPU" "this_node ex_gpu = 0" "ek_initialized ex_gpu"
    by (simp_all add: ex_gpu_def ex_cpu_def)
  have reg: "lbboundaries ex_gpu = [0]" by (simp add: ex_gpu_def ex_cpu_def)
  have own: "filter (gpu_owned ex_gpu) (gpu_nodes (lbpar_gpu ex_gpu)) = [(0, 0, 1)]"
    by (simp add: ex_gpu_nodes gpu_owned_def ex_gpu_best reg)
  from wall_charge_accumulation [OF wg g] obtain s' where
    run: "lb_init_boundaries ex_gpu = Inr s'"
    and out: "\<forall>r. r \<notin> set (lbboundaries ex_gpu) \<longrightarrow> net_charge (heap s' r) = net_charge (heap ex_gpu r)"
    and one: "\<forall>b. lbboundaries ex_gpu = [b] \<longrightarrow>
        net_charge (heap s' b) =
          real (length (filter (gpu_owned ex_gpu) (gpu_nodes (lbpar_gpu ex_gpu)))) *
            (charge_density (heap ex_gpu b) * ek_agrid (ek_parameters ex_gpu) *
             ek_agrid (ek_parameters ex_gpu) * ek_agrid (ek_parameters ex_gpu))"
    by blast
  from one reg have "net_charge (heap s' 0) = 16"
    by (simp add: own) (simp add: ex_gpu_def ex_cpu_def ex_heap_def wall_def)
  moreover from out reg have "net_charge (heap s' 2) = 0"
    by (simp add: ex_gpu_def ex_cpu_def ex_heap_def wall_def)
  ultimately show ?thesis using wg g run by blast
qed

theorem charge_not_only_to_owner_counterexample:
  "outcome owner_list (lb_init_boundaries ex_overlap) = Some [1] \<and>
   outcome (net_charge_of 2) (lb_init_boundaries ex_overlap) = Some 8 \<and>
   outcome wallcharge_buffer (lb_init_boundaries ex_overlap) = Some [5, 24]"
  by code_simp

lemma gpu_buffer_length:
  assumes "ek_initialized sys"
    and "gpu_inv sys (gpu_ws sys) (gpu_L0 sys) (gpu_nodes (lbpar_gpu sys)) L"
  shows "length (host_wallcharge_species_density L) = nat (ek_number_of_nodes (ek_parameters sys))"
  using assms by (simp add: gpu_inv_def gpu_L0_def gpu_buffer0_def)

text \<open>
  Claim C4, as the code has it. On the GPU pass of the coordinating process the net charge
  of every registered boundary is reset and recomputed: whatever net charges the boundary
  objects held before the pass, the pass succeeds with the same net charges of the
  registered boundaries and the same buffer. The buffer is a fresh array of
  \<open>number_of_nodes\<close> entries which the electrokinetic solver fills (the gather at line
  108); the sweep overwrites the entries of the charged nodes, and only when a species
  with nonzero valency exists; every other entry keeps what the gather delivered.
\<close>

theorem gpu_pass_recomputes_net_charge_and_overwrites_charged_nodes:
  assumes "wf_system sys" and "lattice_switch sys = GPU" and "this_node sys = 0"
  shows "\<exists>s'. lb_init_boundaries sys = Inr s' \<and>
     (\<forall>h. same_shapes h (heap sys) \<longrightarrow>
        (\<exists>t'. lb_init_boundaries (sys\<lparr>heap := h\<rparr>) = Inr t' \<and>
           (\<forall>r \<in> set (lbboundaries sys). net_charge (heap t' r) = net_charge (heap s' r)) \<and>
           ek_wallcharge t' = ek_wallcharge s')) \<and>
     (ek_initialized sys \<longrightarrow>
        (\<exists>buf. ek_wallcharge s' = Some (buf, gpu_ws sys) \<and>
           length buf = nat (ek_number_of_nodes (ek_parameters sys)) \<and>
           (\<forall>p \<in> set (gpu_nodes (lbpar_gpu sys)).
              buf ! nat (ek_index (ek_parameters sys) p) =
                (if gpu_ws sys \<noteq> - 1 \<and> gpu_charged sys p
                 then node_charge sys p / ek_valency (ek_parameters sys) (nat (gpu_ws sys))
                 else ek_gather sys (gpu_ws sys) (nat (ek_index (ek_parameters sys) p))))))"
proof -
  from assms have wf: "wf_ek sys" by (simp add: wf_system_def)
  from gpu_pass [OF wf] obtain L where
    run: "lb_init_boundaries_gpu sys = Inr (gpu_final sys L)"
    and inv: "gpu_inv sys (gpu_ws sys) (gpu_L0 sys) (gpu_nodes (lbpar_gpu sys)) L" by blast
  let ?s' = "gpu_final sys L"
  from run assms have r1: "lb_init_boundaries sys = Inr ?s'"
    by (simp add: lb_init_boundaries_def)
  have indep: "\<exists>t'. lb_init_boundaries (sys\<lparr>heap := h\<rparr>) = Inr t' \<and>
           (\<forall>r \<in> set (lbboundaries sys). net_charge (heap t' r) = net_charge (heap ?s' r)) \<and>
           ek_wallcharge t' = ek_wallcharge ?s'" if h: "same_shapes h (heap sys)" for h
  proof -
    let ?t = "sys\<lparr>heap := h\<rparr>"
    have st: "same_setup ?t sys" using h by (simp add: same_setup_def)
    from same_setup_ek(1) [OF st] wf have "wf_ek ?t" by simp
    from gpu_pass [OF this] obtain L' where
      run': "lb_init_boundaries_gpu ?t = Inr (gpu_final ?t L')"
      and inv': "gpu_inv ?t (gpu_ws ?t) (gpu_L0 ?t) (gpu_nodes (lbpar_gpu ?t)) L'" by blast
    note eqs = gpu_inv_same_setup [OF st inv inv']
    from run' assms have "lb_init_boundaries ?t = Inr (gpu_final ?t L')"
      by (simp add: lb_init_boundaries_def)
    moreover have "\<forall>r \<in> set (lbboundaries sys).
        net_charge (heap (gpu_final ?t L') r) = net_charge (heap ?s' r)"
      using eqs(5) by (simp add: gpu_final_def)
    moreover have "ek_wallcharge (gpu_final ?t L') = ek_wallcharge ?s'"
      using eqs(8) same_setup_ek(2) [OF st] by (simp add: gpu_final_def)
    ultimately show ?thesis by blast
  qed
  have buf: "\<exists>buf. ek_wallcharge ?s' = Some (buf, gpu_ws sys) \<and>
           length buf = nat (ek_number_of_nodes (ek_parameters sys)) \<and>
           (\<forall>p \<in> set (gpu_nodes (lbpar_gpu sys)).
              buf ! nat (ek_index (ek_parameters sys) p) =
                (if gpu_ws sys \<noteq> - 1 \<and> gpu_charged sys p
                 then node_charge sys p / ek_valency (ek_parameters sys) (nat (gpu_ws sys))
                 else ek_gather sys (gpu_ws sys) (nat (ek_index (ek_parameters sys) p))))"
    if eki: "ek_initialized sys"
    using gpu_buffer_entry(1) [OF wf eki inv] gpu_buffer_length [OF eki inv] eki
    by (simp add: gpu_final_def)
  from r1 indep buf show ?thesis by blast
qed

theorem gpu_pass_recomputes_net_charge_and_overwrites_charged_nodes_witness:
  "wf_system ex_gpu \<and> lattice_switch ex_gpu = GPU \<and> this_node ex_gpu = 0 \<and>
   same_shapes (\<lambda>p. (ex_heap p)\<lparr>net_charge := 100\<rparr>) (heap ex_gpu) \<and>
   (\<exists>s' t'. lb_init_boundaries ex_gpu = Inr s' \<and>
      lb_init_boundaries (ex_gpu\<lparr>heap := \<lambda>p. (ex_heap p)\<lparr>net_charge := 100\<rparr>\<rparr>) = Inr t' \<and>
      net_charge (heap t' 0) = net_charge (heap s' 0) \<and> ek_wallcharge t' = ek_wallcharge s')"
proof -
  have wg: "wf_system ex_gpu"
    by (simp add: wf_system_def wf_ek_def ex_gpu_def ex_cpu_def)
  have g: "lattice_switch ex_gpu = GPU" "this_node ex_gpu = 0"
    by (simp_all add: ex_gpu_def ex_cpu_def)
  have sh: "same_shapes (\<lambda>p. (ex_heap p)\<lparr>net_charge := 100\<rparr>) (heap ex_gpu)"
    by (simp add: same_shapes_def ex_gpu_def ex_cpu_def ex_heap_def wall_def)
  have reg: "0 \<in> set (lbboundaries ex_gpu)" by (simp add: ex_gpu_def ex_cpu_def)
  from gpu_pass_recomputes_net_charge_and_overwrites_charged_nodes [OF wg g] sh reg
  have "\<exists>s' t'. lb_init_boundaries ex_gpu = Inr s' \<and>
      lb_init_boundaries (ex_gpu\<lparr>heap := \<lambda>p. (ex_heap p)\<lparr>net_charge := 100\<rparr>\<rparr>) = Inr t' \<and>
      net_charge (heap t' 0) = net_charge (heap s' 0) \<and> ek_wallcharge t' = ek_wallcharge s'"
    by blast
  with wg g sh show ?thesis by blast
qed

theorem buffer_keeps_gathered_values_counterexample:
  "lbboundaries ex_gpu_empty = [] \<and>
   outcome wallcharge_buffer (lb_init_boundaries ex_gpu_empty) = Some [5, 5]"
  by code_simp

section \<open>The configuration error\<close>

text \<open>
  Claim C7, as the code has it. On the GPU pass of the coordinating process with an
  initialised electrokinetic solver, if a registered boundary has a nonzero charge
  density and no species has a nonzero valency, the pass succeeds, the channel of runtime
  errors grows by exactly the one message, the classification is complete (the lists for
  the device hold the owned nodes) and the buffer is handed back as gathered, with the
  species \<open>-1\<close>.
\<close>

theorem missing_charged_species_reported_once:
  assumes "lattice_switch sys = GPU" and "this_node sys = 0" and "ek_initialized sys"
    and "\<exists>b \<in> set (lbboundaries sys). charge_density (heap sys b) \<noteq> 0"
    and "\<forall>n. 0 \<le> n \<and> n < ek_number_of_species (ek_parameters sys) \<longrightarrow>
             ek_valency (ek_parameters sys) (nat n) = 0"
  shows "\<exists>s' up. lb_init_boundaries sys = Inr s' \<and>
     runtime_errors s' = runtime_errors sys @ [no_charged_species_message] \<and>
     lb_boundaries_gpu s' = Some up \<and>
     host_number_of_boundnodes up =
       int (length (filter (gpu_owned sys) (gpu_nodes (lbpar_gpu sys)))) \<and>
     take (nat (host_number_of_boundnodes up)) (host_boundary_nodes up) =
       map (gpu_index (lbpar_gpu sys)) (filter (gpu_owned sys) (gpu_nodes (lbpar_gpu sys))) \<and>
     take (nat (host_number_of_boundnodes up)) (host_boundary_indices up) =
       map (\<lambda>p. snd (gpu_best sys p) + 1) (filter (gpu_owned sys) (gpu_nodes (lbpar_gpu sys))) \<and>
     ek_wallcharge s' = Some (gpu_buffer0 sys, - 1)"
proof -
  from assms(3,5) have ws: "gpu_ws sys = - 1"
    by (simp add: gpu_ws_def find_wallcharge_species_none)
  then have "gpu_ws sys \<noteq> - 1 \<longrightarrow> wf_ek sys" by simp
  from gpu_pass_gen [OF this] obtain L where
    run: "lb_init_boundaries_gpu sys = Inr (gpu_final sys L)"
    and inv: "gpu_inv sys (gpu_ws sys) (gpu_L0 sys) (gpu_nodes (lbpar_gpu sys)) L" by blast
  let ?s' = "gpu_final sys L"
  let ?up = "\<lparr>host_n_lb_boundaries = int (length (lbboundaries sys)),
            host_number_of_boundnodes = number_of_boundnodes L,
            host_boundary_nodes = host_boundary_node_list L,
            host_boundary_indices = host_boundary_index_list L,
            host_boundary_velocity = boundary_velocity (objects L) (lbboundaries sys)\<rparr>"
  from run assms have r1: "lb_init_boundaries sys = Inr ?s'"
    by (simp add: lb_init_boundaries_def)
  from assms(3,4) ws have err: "runtime_errors ?s' = runtime_errors sys @ [no_charged_species_message]"
    by (simp add: gpu_final_def gpu_errors_def list_ex_iff no_charged_species_message_def)
  have u: "lb_boundaries_gpu ?s' = Some ?up" by (simp add: gpu_final_def)
  from inv have lists:
    "host_number_of_boundnodes ?up =
       int (length (filter (gpu_owned sys) (gpu_nodes (lbpar_gpu sys))))"
    "take (nat (host_number_of_boundnodes ?up)) (host_boundary_nodes ?up) =
       map (gpu_index (lbpar_gpu sys)) (filter (gpu_owned sys) (gpu_nodes (lbpar_gpu sys)))"
    "take (nat (host_number_of_boundnodes ?up)) (host_boundary_indices ?up) =
       map (\<lambda>p. snd (gpu_best sys p) + 1) (filter (gpu_owned sys) (gpu_nodes (lbpar_gpu sys)))"
    using take_padded [of "map (gpu_index (lbpar_gpu sys)) (filter (gpu_owned sys) (gpu_nodes (lbpar_gpu sys)))"]
      take_padded [of "map (\<lambda>p. snd (gpu_best sys p) + 1) (filter (gpu_owned sys) (gpu_nodes (lbpar_gpu sys)))"]
    by (simp_all add: gpu_inv_def)
  from inv assms(3) ws have b: "ek_wallcharge ?s' = Some (gpu_buffer0 sys, - 1)"
    by (simp add: gpu_final_def gpu_inv_def gpu_L0_def)
  from r1 err u lists b show ?thesis by blast
qed

theorem missing_charged_species_reported_once_witness:
  "lattice_switch ex_no_species = GPU \<and> this_node ex_no_species = 0 \<and>
   ek_initialized ex_no_species \<and> charge_density (heap ex_no_species 0) \<noteq> 0 \<and>
   (\<exists>s'. lb_init_boundaries ex_no_species = Inr s' \<and>
      runtime_errors s' = [no_charged_species_message] \<and>
      ek_wallcharge s' = Some ([5, 5], - 1))"
proof -
  have g: "lattice_switch ex_no_species = GPU" "this_node ex_no_species = 0"
    "ek_initialized ex_no_species"
    by (simp_all add: ex_no_species_def ex_gpu_def ex_cpu_def)
  have c: "charge_density (heap ex_no_species 0) \<noteq> 0"
    by (simp add: ex_no_species_def ex_gpu_def ex_cpu_def ex_heap_def wall_def)
  have b: "\<exists>b \<in> set (lbboundaries ex_no_species). charge_density (heap ex_no_species b) \<noteq> 0"
    by (simp add: ex_no_species_def ex_gpu_def ex_cpu_def ex_heap_def wall_def)
  have v: "\<forall>n. 0 \<le> n \<and> n < ek_number_of_species (ek_parameters ex_no_species) \<longrightarrow>
             ek_valency (ek_parameters ex_no_species) (nat n) = 0"
    by (simp add: ex_no_species_def ex_gpu_def ex_cpu_def)
  have ws: "gpu_ws ex_no_species = - 1"
    by (simp add: gpu_ws_def find_wallcharge_species_def ex_no_species_def ex_gpu_def ex_cpu_def)
  have b0: "gpu_buffer0 ex_no_species = [5, 5]"
    unfolding gpu_buffer0_def ws
    by (simp add: ex_no_species_def ex_gpu_def ex_cpu_def upt_rec)
  from missing_charged_species_reported_once [OF g b v] obtain s' where
    "lb_init_boundaries ex_no_species = Inr s'"
    "runtime_errors s' = runtime_errors ex_no_species @ [no_charged_species_message]"
    "ek_wallcharge s' = Some (gpu_buffer0 ex_no_species, - 1)"
    by blast
  then have "lb_init_boundaries ex_no_species = Inr s' \<and>
      runtime_errors s' = [no_charged_species_message] \<and>
      ek_wallcharge s' = Some ([5, 5], - 1)"
    by (simp add: b0) (simp add: ex_no_species_def ex_gpu_def ex_cpu_def)
  with g c show ?thesis by blast
qed

theorem uninitialised_solver_no_error_counterexample:
  "lbboundaries ex_no_ek = [0] \<and> charge_density (heap ex_no_ek 0) = 2 \<and>
   ek_number_of_species (ek_parameters ex_no_ek) = 0 \<and>
   outcome runtime_errors (lb_init_boundaries ex_no_ek) = Some []"
  by code_simp

end
